theory Spec2Isabelle
  imports Complex_Main "HOL-Library.AList"
begin

section \<open>Strings and numbers of the source\<close>

text \<open>
  The source is TypeScript. Its strings are modelled as \<open>string\<close> restricted to ASCII
  characters; \<open>number\<close> is modelled as \<open>real\<close> for coordinates (the source computes
  with IEEE doubles, whose rounding and NaN are not modelled) and as \<open>int\<close> for
  millisecond timestamps.
\<close>

definition is_digit :: "char \<Rightarrow> bool" where
  \<comment> \<open>the regular-expression class \<open>\d\<close>\<close>
  "is_digit c = (c \<in> set ''0123456789'')"

definition is_space :: "char \<Rightarrow> bool" where
  \<comment> \<open>the ASCII members of the class \<open>\s\<close>, which are also what \<open>trim\<close> strips:
      TAB, LF, VT, FF, CR and the space\<close>
  "is_space c = (c \<in> {CHR 0x09, CHR 0x0A, CHR 0x0B, CHR 0x0C, CHR 0x0D, CHR '' ''})"

definition lower_char :: "char \<Rightarrow> char" where
  "lower_char c =
     (case map_of (zip ''ABCDEFGHIJKLMNOPQRSTUVWXYZ'' ''abcdefghijklmnopqrstuvwxyz'') c of
        Some d \<Rightarrow> d
      | None \<Rightarrow> c)"

definition toLowerCase :: "string \<Rightarrow> string" where
  "toLowerCase s = map lower_char s"

definition trim :: "string \<Rightarrow> string" where
  "trim s = rev (dropWhile is_space (rev (dropWhile is_space s)))"

text \<open>\<open>String.prototype.replace\<close> with a string pattern: only the first occurrence
  is replaced.\<close>

fun replace_first :: "string \<Rightarrow> string \<Rightarrow> string \<Rightarrow> string" where
  "replace_first pat rep [] = (if pat = [] then rep else [])"
| "replace_first pat rep (c # cs) =
     (if take (length pat) (c # cs) = pat then rep @ drop (length pat) (c # cs)
      else c # replace_first pat rep cs)"

section \<open>parseCoordinatesFromLocation (src/lib/geocoding.ts)\<close>

text \<open>
  Both regular expressions of the parser are built from the group
  \<open>(-?\d+\.?\d*)\<close>. \<open>match_number\<close> matches that group at the head of a string and
  returns the captured text and the rest. The match is greedy; in both expressions the
  group is followed by a comma, white space, a closing parenthesis or the end of the
  input, none of which can follow a shorter match of the group, so that backtracking
  into the group never succeeds and the greedy match is the only candidate.
\<close>

definition match_unsigned :: "string \<Rightarrow> (string \<times> string) option" where
  \<comment> \<open>\<open>\d+\.?\d*\<close>\<close>
  "match_unsigned s =
     (let ds = takeWhile is_digit s;
          s2 = dropWhile is_digit s
      in if ds = [] then None
         else (case s2 of
                 c # t \<Rightarrow>
                   if c = CHR ''.''
                   then Some (ds @ ''.'' @ takeWhile is_digit t, dropWhile is_digit t)
                   else Some (ds, s2)
               | [] \<Rightarrow> Some (ds, s2)))"

definition match_number :: "string \<Rightarrow> (string \<times> string) option" where
  \<comment> \<open>\<open>-?\d+\.?\d*\<close>\<close>
  "match_number s =
     (case s of
        c # t \<Rightarrow>
          if c = CHR ''-''
          then (case match_unsigned t of None \<Rightarrow> None | Some (m, r) \<Rightarrow> Some (CHR ''-'' # m, r))
          else match_unsigned s
      | [] \<Rightarrow> None)"

text \<open>The result of \<open>String.prototype.match\<close>: the whole matched text and the two
  captured groups.\<close>

record regex_match =
  whole :: string
  group1 :: string
  group2 :: string

definition expect_char :: "char \<Rightarrow> string \<Rightarrow> string option" where
  "expect_char c s = (case s of d # t \<Rightarrow> if d = c then Some t else None | [] \<Rightarrow> None)"

text \<open>\<open>/\((-?\d+\.?\d*),\s*(-?\d+\.?\d*)\)/\<close> tried at the head of the string.\<close>

definition paren_match_here :: "string \<Rightarrow> regex_match option" where
  "paren_match_here s =
     (case expect_char CHR ''('' s of None \<Rightarrow> None
      | Some s1 \<Rightarrow>
     (case match_number s1 of None \<Rightarrow> None
      | Some (n1, s2) \<Rightarrow>
     (case expect_char CHR '','' s2 of None \<Rightarrow> None
      | Some s3 \<Rightarrow>
     (let ws = takeWhile is_space s3 in
      case match_number (dropWhile is_space s3) of None \<Rightarrow> None
      | Some (n2, s4) \<Rightarrow>
     (case expect_char CHR '')'' s4 of None \<Rightarrow> None
      | Some s5 \<Rightarrow>
          Some \<lparr>whole = ''('' @ n1 @ '','' @ ws @ n2 @ '')'', group1 = n1, group2 = n2\<rparr>)))))"

text \<open>The expression is not anchored: the leftmost position that matches wins.\<close>

fun paren_match :: "string \<Rightarrow> regex_match option" where
  "paren_match [] = None"
| "paren_match (c # cs) =
     (case paren_match_here (c # cs) of Some m \<Rightarrow> Some m | None \<Rightarrow> paren_match cs)"

text \<open>\<open>/^(-?\d+\.?\d*)\s*,\s*(-?\d+\.?\d*)$/\<close>: anchored at both ends of the string
  as it is given (the source does not trim it first).\<close>

definition coord_match :: "string \<Rightarrow> regex_match option" where
  "coord_match s =
     (case match_number s of None \<Rightarrow> None
      | Some (n1, s1) \<Rightarrow>
     (case expect_char CHR '','' (dropWhile is_space s1) of None \<Rightarrow> None
      | Some s2 \<Rightarrow>
     (case match_number (dropWhile is_space s2) of None \<Rightarrow> None
      | Some (n2, s3) \<Rightarrow>
          if s3 = [] then Some \<lparr>whole = s, group1 = n1, group2 = n2\<rparr> else None)))"

text \<open>
  \<open>parseFloat\<close> on the texts that the group \<open>(-?\d+\.?\d*)\<close> can capture, the only
  arguments the source passes: an optional minus sign, digits, and an optional point
  followed by digits. The value is the exact decimal value.
\<close>

definition digit_val :: "char \<Rightarrow> nat" where
  "digit_val c = (case map_of (zip ''0123456789'' [0, 1, 2, 3, 4, 5, 6, 7, 8, 9]) c of
                    Some d \<Rightarrow> d
                  | None \<Rightarrow> 0)"

definition digits_val :: "string \<Rightarrow> nat" where
  "digits_val ds = foldl (\<lambda>n c. 10 * n + digit_val c) 0 ds"

definition parseFloat :: "string \<Rightarrow> real" where
  "parseFloat s =
     (let neg = (s \<noteq> [] \<and> hd s = CHR ''-'');
          body = (if neg then tl s else s);
          ip = takeWhile is_digit body;
          fp = takeWhile is_digit (drop 1 (dropWhile is_digit body));
          v = real (digits_val ip) + real (digits_val fp) / 10 ^ length fp
      in if neg then - v else v)"

record coords =
  lat :: real
  lng :: real

record parsed_location =
  address :: string
  coordinates :: "coords option"

definition parseCoordinatesFromLocation :: "string \<Rightarrow> parsed_location" where
  "parseCoordinatesFromLocation location =
     (case paren_match location of
        Some parenMatch \<Rightarrow>
          \<lparr>address = trim (replace_first (whole parenMatch) '''' location),
           coordinates = Some \<lparr>lat = parseFloat (group1 parenMatch),
                                lng = parseFloat (group2 parenMatch)\<rparr>\<rparr>
      | None \<Rightarrow>
     (case coord_match location of
        Some coordMatch \<Rightarrow>
          \<lparr>address = location,
           coordinates = Some \<lparr>lat = parseFloat (group1 coordMatch),
                                lng = parseFloat (group2 coordMatch)\<rparr>\<rparr>
      | None \<Rightarrow> \<lparr>address = location, coordinates = None\<rparr>))"

definition isValidCoordinates :: "real \<Rightarrow> real \<Rightarrow> bool" where
  "isValidCoordinates la lo = (la \<ge> -90 \<and> la \<le> 90 \<and> lo \<ge> -180 \<and> lo \<le> 180)"

section \<open>getZoomLevel (src/components/CalendarMap.tsx)\<close>

record bounds =
  ne :: coords
  sw :: coords

definition getZoomLevel :: "bounds \<Rightarrow> nat" where
  "getZoomLevel b =
     (let latDiff = \<bar>lat (ne b) - lat (sw b)\<bar>;
          lngDiff = \<bar>lng (ne b) - lng (sw b)\<bar>
      in if latDiff = 0 \<and> lngDiff = 0 then 14
         else (let maxDiff = max latDiff lngDiff
               in if maxDiff > 10 then 6
                  else if maxDiff > 5 then 8
                  else if maxDiff > 1 then 10
                  else if maxDiff > 0.1 then 12
                  else 14))"

text \<open>The larger of the two extents of a box, as \<open>getZoomLevel\<close> computes it.\<close>

definition span :: "bounds \<Rightarrow> real" where
  "span b = max \<bar>lat (ne b) - lat (sw b)\<bar> \<bar>lng (ne b) - lng (sw b)\<bar>"

section \<open>The geocoding cache (src/lib/geocoding.ts)\<close>

record components =
  country :: "string option"
  state :: "string option"
  city :: "string option"
  street :: "string option"

text \<open>\<open>GeocodedLocation\<close> of the shared type declarations.\<close>

record GeocodedLocation =
  loc_address :: string
  formattedAddress :: string
  loc_coordinates :: coords
  placeId :: "string option"
  loc_components :: "components option"

record CacheEntry =
  data :: GeocodedLocation
  timestamp :: int
  ttl :: int

text \<open>
  \<open>geocodeCache\<close> is a JavaScript \<open>Map\<close>: it iterates in insertion order, \<open>set\<close> on a
  key that is present replaces the value in place, \<open>set\<close> on a new key appends, and
  \<open>delete\<close> removes the key. An association list with \<open>AList.update\<close> and
  \<open>AList.delete\<close> behaves so; its keys are distinct in every state the program reaches.
\<close>

type_synonym cache = "(string \<times> CacheEntry) list"

definition CACHE_TTL :: int where
  "CACHE_TTL = 60 * 60 * 1000"

definition MAX_CACHE_SIZE :: nat where
  "MAX_CACHE_SIZE = 1000"

definition getCacheKey :: "string \<Rightarrow> string" where
  "getCacheKey addr = trim (toLowerCase addr)"

text \<open>
  The events that the claims speak of: a lookup in the cache under a key, and a request
  sent to the provider for an address.
\<close>

datatype event = CacheGet string | Fetch string

text \<open>
  The module state: the cache, the number of readings of \<open>Date.now()\<close> made so far,
  and the events so far, oldest first.
\<close>

record geo_state =
  geocodeCache :: cache
  ticks :: nat
  trace :: "event list"

text \<open>
  What the provider returns for a request. The payload is modelled as well typed: a
  candidate has a formatted address and numeric coordinates, so that the type errors
  that a malformed candidate would raise in the source are covered by \<open>BadBody\<close> only.
\<close>

record address_component =
  types :: "string list"
  long_name :: string
  short_name :: string

record geocode_result =
  formatted_address :: string
  geometry_lat :: real
  geometry_lng :: real
  place_id :: "string option"
  address_components :: "address_component list option"

record api_payload =
  error_message :: "string option"
  results :: "geocode_result list option"

datatype fetch_outcome =
    NetworkFailure string  \<comment> \<open>\<open>fetch\<close> rejects with this message\<close>
  | HttpError nat  \<comment> \<open>\<open>response.ok\<close> is false, with this status\<close>
  | BadBody string  \<comment> \<open>\<open>response.json()\<close> rejects with this message\<close>
  | Payload api_payload

text \<open>
  The environment of a run: the configured credential, the answer of the provider to
  the \<open>n\<close>-th request when it is for a given address, and the \<open>n\<close>-th reading of the
  clock.
\<close>

record env =
  apiKey :: "string option"
  provider :: "nat \<Rightarrow> string \<Rightarrow> fetch_outcome"
  clock :: "nat \<Rightarrow> int"

datatype js_error = Error (message: string)

definition Date_now :: "env \<Rightarrow> geo_state \<Rightarrow> geo_state \<times> int" where
  "Date_now e st = (st\<lparr>ticks := Suc (ticks st)\<rparr>, clock e (ticks st))"

definition enforceMaxCacheSize :: "cache \<Rightarrow> cache" where
  "enforceMaxCacheSize c =
     (if length c > MAX_CACHE_SIZE
      then (let entries = sort_key (\<lambda>kv. timestamp (snd kv)) c;
                toDelete = length entries - MAX_CACHE_SIZE
            in foldl (\<lambda>c' kv. AList.delete (fst kv) c') c (take toDelete entries))
      else c)"

definition getCachedResult ::
  "env \<Rightarrow> geo_state \<Rightarrow> string \<Rightarrow> geo_state \<times> GeocodedLocation option" where
  "getCachedResult e st addr =
     (let key = getCacheKey addr;
          st0 = st\<lparr>trace := trace st @ [CacheGet key]\<rparr>
      in case map_of (geocodeCache st0) key of
           None \<Rightarrow> (st0, None)
         | Some entry \<Rightarrow>
             (let (st1, now) = Date_now e st0
              in if now - timestamp entry > ttl entry
                 then (st1\<lparr>geocodeCache := AList.delete key (geocodeCache st1)\<rparr>, None)
                 else (st1, Some (data entry))))"

definition cacheResult :: "env \<Rightarrow> geo_state \<Rightarrow> string \<Rightarrow> GeocodedLocation \<Rightarrow> geo_state" where
  "cacheResult e st addr location =
     (let key = getCacheKey addr;
          (st1, now) = Date_now e st;
          st2 = st1\<lparr>geocodeCache :=
                  AList.update key \<lparr>data = location, timestamp = now, ttl = CACHE_TTL\<rparr>
                    (geocodeCache st1)\<rparr>
      in st2\<lparr>geocodeCache := enforceMaxCacheSize (geocodeCache st2)\<rparr>)"

section \<open>geocodeAddress\<close>

text \<open>Decimal text of a number, for the status in an error message.\<close>

fun show_nat :: "nat \<Rightarrow> string" where
  "show_nat n =
     (if n < 10 then [''0123456789'' ! n]
      else show_nat (n div 10) @ [''0123456789'' ! (n mod 10)])"

text \<open>The loop over \<open>result.address_components\<close>.\<close>

definition add_component :: "components \<Rightarrow> address_component \<Rightarrow> components" where
  "add_component cs component =
     (if ''country'' \<in> set (types component)
        then cs\<lparr>country := Some (long_name component)\<rparr>
      else if ''administrative_area_level_1'' \<in> set (types component)
        then cs\<lparr>state := Some (short_name component)\<rparr>
      else if ''locality'' \<in> set (types component)
        then cs\<lparr>city := Some (long_name component)\<rparr>
      else if ''route'' \<in> set (types component)
        then cs\<lparr>street := Some (long_name component)\<rparr>
      else cs)"

definition no_components :: components where
  "no_components = \<lparr>country = None, state = None, city = None, street = None\<rparr>"

definition build_location :: "string \<Rightarrow> geocode_result \<Rightarrow> GeocodedLocation" where
  "build_location addr result =
     (let location = \<lparr>loc_address = addr,
                       formattedAddress = formatted_address result,
                       loc_coordinates = \<lparr>lat = geometry_lat result, lng = geometry_lng result\<rparr>,
                       placeId = place_id result,
                       loc_components = None\<rparr>
      in case address_components result of
           None \<Rightarrow> location
         | Some acs \<Rightarrow>
             (let cs = foldl add_component no_components acs
              in if cs \<noteq> no_components then location\<lparr>loc_components := Some cs\<rparr>
                 else location))"

text \<open>
  \<open>geocodeAddress\<close> is an \<open>async\<close> function with one suspension point, the
  \<open>await fetch\<close>. \<open>geocodeAddress_begin\<close> is the part that runs before it: it either
  settles the promise or issues the request. \<open>geocodeAddress_finish\<close> is the part that
  runs when the response has arrived. The \<open>catch\<close> block logs and rethrows, so it
  changes no result.
\<close>

datatype pending = Settled "js_error + GeocodedLocation" | InFlight fetch_outcome

definition fetch_count :: "geo_state \<Rightarrow> nat" where
  "fetch_count st = length (filter (\<lambda>ev. case ev of Fetch _ \<Rightarrow> True | _ \<Rightarrow> False) (trace st))"

definition geocodeAddress_begin :: "env \<Rightarrow> geo_state \<Rightarrow> string \<Rightarrow> geo_state \<times> pending" where
  "geocodeAddress_begin e st addr =
     (case getCachedResult e st addr of
        (st1, Some cached) \<Rightarrow> (st1, Settled (Inr cached))
      | (st1, None) \<Rightarrow>
          if addr = [] \<or> length (trim addr) = 0
            then (st1, Settled (Inl (Error ''Address is required'')))
          else if apiKey e = None \<or> apiKey e = Some []
            then (st1, Settled (Inl (Error ''GOOGLE_MAPS_API_KEY is not configured'')))
          else (st1\<lparr>trace := trace st1 @ [Fetch addr]\<rparr>,
                InFlight (provider e (fetch_count st1) addr)))"

definition geocodeAddress_finish ::
  "env \<Rightarrow> geo_state \<Rightarrow> string \<Rightarrow> fetch_outcome \<Rightarrow> geo_state \<times> (js_error + GeocodedLocation)" where
  "geocodeAddress_finish e st addr outcome =
     (case outcome of
        NetworkFailure msg \<Rightarrow> (st, Inl (Error msg))
      | HttpError status \<Rightarrow> (st, Inl (Error (''Geocoding API error: '' @ show_nat status)))
      | BadBody msg \<Rightarrow> (st, Inl (Error msg))
      | Payload d \<Rightarrow>
          if error_message d \<noteq> None \<and> error_message d \<noteq> Some []
            then (st, Inl (Error (''Geocoding API error: '' @ the (error_message d))))
          else (case results d of
                  None \<Rightarrow>
                    (st, Inl (Error (''No geocoding results found for \"'' @ addr @ ''\"'')))
                | Some [] \<Rightarrow>
                    (st, Inl (Error (''No geocoding results found for \"'' @ addr @ ''\"'')))
                | Some (result # _) \<Rightarrow>
                    (let location = build_location addr result
                     in (cacheResult e st addr location, Inr location))))"

definition geocodeAddress ::
  "env \<Rightarrow> geo_state \<Rightarrow> string \<Rightarrow> geo_state \<times> (js_error + GeocodedLocation)" where
  "geocodeAddress e st addr =
     (case geocodeAddress_begin e st addr of
        (st1, Settled r) \<Rightarrow> (st1, r)
      | (st1, InFlight outcome) \<Rightarrow> geocodeAddress_finish e st1 addr outcome)"

section \<open>batchGeocodeAddresses\<close>

text \<open>\<open>Array.from(new Set(addresses))\<close>: the distinct addresses, each at the place of
  its first occurrence.\<close>

definition new_Set :: "string list \<Rightarrow> string list" where
  "new_Set xs = foldl (\<lambda>s x. if x \<in> set s then s else s @ [x]) [] xs"

type_synonym results_map = "(string \<times> GeocodedLocation) list"
type_synonym errors_map = "(string \<times> string) list"

text \<open>
  One chunk. \<open>chunk.map\<close> starts \<open>geocodeAddress\<close> for every address of the chunk, in
  order; each call runs up to its \<open>await fetch\<close> before the next one starts.
\<close>

fun begin_all :: "env \<Rightarrow> geo_state \<Rightarrow> string list \<Rightarrow> geo_state \<times> (string \<times> pending) list" where
  "begin_all e st [] = (st, [])"
| "begin_all e st (addr # rest) =
     (let (st1, p) = geocodeAddress_begin e st addr;
          (st2, ps) = begin_all e st1 rest
      in (st2, (addr, p) # ps))"

fun settled_of :: "(string \<times> pending) list \<Rightarrow> (string \<times> (js_error + GeocodedLocation)) list" where
  "settled_of [] = []"
| "settled_of ((addr, Settled r) # ps) = (addr, r) # settled_of ps"
| "settled_of ((addr, InFlight outcome) # ps) = settled_of ps"

fun inflight_of :: "(string \<times> pending) list \<Rightarrow> (string \<times> fetch_outcome) list" where
  "inflight_of [] = []"
| "inflight_of ((addr, Settled r) # ps) = inflight_of ps"
| "inflight_of ((addr, InFlight outcome) # ps) = (addr, outcome) # inflight_of ps"

text \<open>
  The responses then arrive, and each call runs to its end. The order in which they
  arrive is not fixed by the source; the model takes the order of the requests.
\<close>

fun finish_all ::
  "env \<Rightarrow> geo_state \<Rightarrow> (string \<times> fetch_outcome) list \<Rightarrow>
   geo_state \<times> (string \<times> (js_error + GeocodedLocation)) list" where
  "finish_all e st [] = (st, [])"
| "finish_all e st ((addr, outcome) # rest) =
     (let (st1, r) = geocodeAddress_finish e st addr outcome;
          (st2, rs) = finish_all e st1 rest
      in (st2, (addr, r) # rs))"

text \<open>The \<open>.then\<close> and \<open>.catch\<close> callbacks: \<open>results.set\<close> or \<open>errors.set\<close>.\<close>

definition record_outcome ::
  "results_map \<times> errors_map \<Rightarrow> string \<times> (js_error + GeocodedLocation) \<Rightarrow>
   results_map \<times> errors_map" where
  "record_outcome acc ar =
     (case ar of
        (addr, Inr location) \<Rightarrow> (AList.update addr location (fst acc), snd acc)
      | (addr, Inl err) \<Rightarrow> (fst acc, AList.update addr (message err) (snd acc)))"

text \<open>
  The callbacks touch only the two local maps and the calls touch only the module
  state, so the model runs the calls of a chunk first and the callbacks after them:
  those of the promises that settled without a request, then those of the requests.
\<close>

definition process_chunk ::
  "env \<Rightarrow> geo_state \<times> results_map \<times> errors_map \<Rightarrow> string list \<Rightarrow>
   geo_state \<times> results_map \<times> errors_map" where
  "process_chunk e acc chunk =
     (case acc of (st, maps) \<Rightarrow>
        (let (st1, ps) = begin_all e st chunk;
             (st2, finished) = finish_all e st1 (inflight_of ps)
         in (st2, foldl record_outcome maps (settled_of ps @ finished))))"

text \<open>
  The \<open>for\<close> loop over the chunks. With \<open>parallel = 0\<close> and an address to process, the
  source loops for ever on an empty chunk: the model returns \<open>None\<close> for a run that does
  not return.
\<close>

function batch_loop ::
  "env \<Rightarrow> nat \<Rightarrow> string list \<Rightarrow> nat \<Rightarrow> geo_state \<times> results_map \<times> errors_map \<Rightarrow>
   (geo_state \<times> results_map \<times> errors_map) option" where
  "batch_loop e parallel uniqueAddresses i acc =
     (if i < length uniqueAddresses
      then (if parallel = 0 then None
            else batch_loop e parallel uniqueAddresses (i + parallel)
                   (process_chunk e acc (take parallel (drop i uniqueAddresses))))
      else Some acc)"
  by pat_completeness auto
termination
  by (relation "measure (\<lambda>(e, parallel, uniqueAddresses, i, acc). length uniqueAddresses - i)")
     auto

text \<open>The state and the two local maps \<open>results\<close> and \<open>errors\<close> when the loop ends.\<close>

definition batch_run ::
  "env \<Rightarrow> geo_state \<Rightarrow> string list \<Rightarrow> nat \<Rightarrow>
   (geo_state \<times> results_map \<times> errors_map) option" where
  "batch_run e st addresses parallel = batch_loop e parallel (new_Set addresses) 0 (st, [], [])"

text \<open>The function returns \<open>results\<close>; \<open>errors\<close> is written to the console only.\<close>

definition batchGeocodeAddresses ::
  "env \<Rightarrow> geo_state \<Rightarrow> string list \<Rightarrow> nat \<Rightarrow> (geo_state \<times> results_map) option" where
  "batchGeocodeAddresses e st addresses parallel =
     (case batch_run e st addresses parallel of
        None \<Rightarrow> None
      | Some (st', res, errs) \<Rightarrow> Some (st', res))"

section \<open>The route handlers of \<open>/api/geocode\<close>\<close>

text \<open>The responses, without their time stamp: a single location, a batch (data,
  \<open>geocoded\<close>, \<open>cached\<close>, \<open>failed\<close>), or an error (status, \<open>error\<close>, \<open>message\<close>).\<close>

datatype api_response =
    SingleOk GeocodedLocation
  | BatchOk results_map int int int
  | ErrorResponse nat string string

record request_body =
  req_address :: "string option"
  req_addresses :: "string list option"
  req_batch :: bool

datatype request = InvalidJson string | Body request_body

text \<open>
  \<open>handleBatchGeocoding\<close> passes the concurrency limit 5. Its \<open>catch\<close> block, which
  answers with status 500, is not reached: \<open>batchGeocodeAddresses\<close> catches the
  failure of every address. The result is \<open>None\<close> only if the batch does not return.
\<close>

definition handleBatchGeocoding ::
  "env \<Rightarrow> geo_state \<Rightarrow> string list \<Rightarrow> (geo_state \<times> api_response) option" where
  "handleBatchGeocoding e st addresses =
     (if length addresses = 0
        then Some (st, ErrorResponse 400 ''Bad request'' ''addresses must be a non-empty array'')
      else if length addresses > 100
        then Some (st, ErrorResponse 400 ''Bad request''
                         ''Maximum 100 addresses per batch request'')
      else (let validAddresses = filter (\<lambda>addr. length (trim addr) > 0) addresses
            in if length validAddresses = 0
                 then Some (st, ErrorResponse 400 ''Bad request'' ''No valid addresses provided'')
               else (case batchGeocodeAddresses e st validAddresses 5 of
                       None \<Rightarrow> None
                     | Some (st', res) \<Rightarrow>
                         (let geocoded = int (length res);
                              failed = int (length validAddresses) - geocoded
                          in Some (st', BatchOk res geocoded 0 failed)))))"

definition POST :: "env \<Rightarrow> geo_state \<Rightarrow> request \<Rightarrow> (geo_state \<times> api_response) option" where
  "POST e st req =
     (case req of
        InvalidJson msg \<Rightarrow> Some (st, ErrorResponse 400 ''Bad request'' msg)
      | Body body \<Rightarrow>
          if req_batch body \<and> req_addresses body \<noteq> None
            then handleBatchGeocoding e st (the (req_addresses body))
          else (case req_address body of
                  None \<Rightarrow>
                    Some (st, ErrorResponse 400 ''Bad request''
                                ''address parameter is required and must be a string'')
                | Some addr \<Rightarrow>
                    if addr = []
                      then Some (st, ErrorResponse 400 ''Bad request''
                                       ''address parameter is required and must be a string'')
                    else (let parsed = parseCoordinatesFromLocation addr
                          in if coordinates parsed \<noteq> None
                                \<and> isValidCoordinates (lat (the (coordinates parsed)))
                                                     (lng (the (coordinates parsed)))
                               then Some (st, SingleOk \<lparr>loc_address = addr,
                                                        formattedAddress = addr,
                                                        loc_coordinates = the (coordinates parsed),
                                                        placeId = None,
                                                        loc_components = None\<rparr>)
                             else (case geocodeAddress e st addr of
                                     (st', Inr location) \<Rightarrow> Some (st', SingleOk location)
                                   | (st', Inl err) \<Rightarrow>
                                       Some (st', ErrorResponse 404 ''Geocoding failed''
                                                    (message err))))))"

section \<open>Notions used in the statements\<close>

text \<open>The step function of the specification, on a span in degrees.\<close>

definition zoom_of_span :: "real \<Rightarrow> nat" where
  "zoom_of_span s =
     (if s > 10 then 6 else if s > 5 then 8 else if s > 1 then 10
      else if s > 0.1 then 12 else 14)"

text \<open>
  A decimal numeral as the specification describes it: an optional leading minus,
  digits, and an optional decimal part.
\<close>

definition is_decimal :: "string \<Rightarrow> bool" where
  "is_decimal n =
     (let body = (if n \<noteq> [] \<and> hd n = CHR ''-'' then tl n else n);
          ip = takeWhile is_digit body;
          rest = dropWhile is_digit body
      in ip \<noteq> [] \<and> (rest = [] \<or> (hd rest = CHR ''.'' \<and> list_all is_digit (tl rest))))"

text \<open>The sort key of \<open>enforceMaxCacheSize\<close>.\<close>

abbreviation ts :: "string \<times> CacheEntry \<Rightarrow> int" where
  "ts kv \<equiv> timestamp (snd kv)"

text \<open>
  What holds of the cache in every state that the program reaches while the clock does
  not run backwards: the keys are distinct (it is a \<open>Map\<close>), there are at most
  \<open>MAX_CACHE_SIZE\<close> entries, and no entry is stamped later than the next reading of
  the clock.
\<close>

definition cache_ok :: "env \<Rightarrow> geo_state \<Rightarrow> bool" where
  "cache_ok e st =
     (distinct (map fst (geocodeCache st))
      \<and> length (geocodeCache st) \<le> MAX_CACHE_SIZE
      \<and> (\<forall>kv \<in> set (geocodeCache st). timestamp (snd kv) \<le> clock e (ticks st)))"

text \<open>A sequence of insertions, and the entries that they write: the \<open>i\<close>-th insertion
  stamps its entry with the \<open>i\<close>-th reading of the clock.\<close>

definition cacheResult_all ::
  "env \<Rightarrow> geo_state \<Rightarrow> (string \<times> GeocodedLocation) list \<Rightarrow> geo_state" where
  "cacheResult_all e st xs = foldl (\<lambda>st' al. cacheResult e st' (fst al) (snd al)) st xs"

definition inserted :: "env \<Rightarrow> nat \<Rightarrow> (string \<times> GeocodedLocation) list \<Rightarrow> cache" where
  "inserted e n xs =
     map (\<lambda>ial. (getCacheKey (fst (snd ial)),
                  \<lparr>data = snd (snd ial), timestamp = clock e (fst ial), ttl = CACHE_TTL\<rparr>))
         (enumerate n xs)"

text \<open>The state of a freshly loaded module, and sample data: a location, a clock that
  advances one second per reading and one that advances one day per reading.\<close>

definition initial_state :: geo_state where
  "initial_state = \<lparr>geocodeCache = [], ticks = 0, trace = []\<rparr>"

definition sample_location :: GeocodedLocation where
  "sample_location =
     \<lparr>loc_address = ''Paris'', formattedAddress = ''Paris, France'',
      loc_coordinates = \<lparr>lat = 48.8566, lng = 2.3522\<rparr>,
      placeId = Some ''p1'', loc_components = None\<rparr>"

definition seconds_env :: env where
  "seconds_env = \<lparr>apiKey = None, provider = (\<lambda>n a. HttpError 500),
                  clock = (\<lambda>n. 1000 * int n)\<rparr>"


text \<open>An address that is empty or consists of white space only.\<close>

definition is_blank :: "string \<Rightarrow> bool" where
  "is_blank s = list_all is_space s"

text \<open>The body of a request for one address.\<close>

definition single_request :: "string \<Rightarrow> request" where
  "single_request addr = Body \<lparr>req_address = Some addr, req_addresses = None, req_batch = False\<rparr>"

text \<open>A candidate as the provider returns it, a provider that answers the first request
  with that candidate and every later one with status 503 (its clock advances one day per
  reading), and a provider whose candidate lies outside the valid ranges.\<close>

definition sample_result :: geocode_result where
  "sample_result =
     \<lparr>formatted_address = ''Paris, France'', geometry_lat = 48.8566, geometry_lng = 2.3522,
      place_id = Some ''p1'', address_components = None\<rparr>"

definition flaky_env :: env where
  "flaky_env =
     \<lparr>apiKey = Some ''key'',
      provider = (\<lambda>n a. if n = 0
                         then Payload \<lparr>error_message = None, results = Some [sample_result]\<rparr>
                         else HttpError 503),
      clock = (\<lambda>n. 86400000 * int n)\<rparr>"

definition far_env :: env where
  "far_env =
     \<lparr>apiKey = Some ''key'',
      provider = (\<lambda>n a. Payload \<lparr>error_message = None,
                                   results = Some [sample_result\<lparr>geometry_lat := 91,
                                                                  geometry_lng := 181\<rparr>]\<rparr>),
      clock = (\<lambda>n. 1000 * int n)\<rparr>"

text \<open>The two local maps of \<open>batchGeocodeAddresses\<close> partition the set \<open>S\<close> of
  addresses: each address of \<open>S\<close> is a key of exactly one of them.\<close>

definition part_ok :: "string set \<Rightarrow> results_map \<times> errors_map \<Rightarrow> bool" where
  "part_ok S maps =
     (fst ` set (fst maps) \<union> fst ` set (snd maps) = S
      \<and> fst ` set (fst maps) \<inter> fst ` set (snd maps) = {}
      \<and> distinct (map fst (fst maps)) \<and> distinct (map fst (snd maps)))"

text \<open>The handler answered with an error response.\<close>

definition is_rejection :: "(geo_state \<times> api_response) option \<Rightarrow> bool" where
  "is_rejection r = (case r of Some (st, ErrorResponse status err msg) \<Rightarrow> True | _ \<Rightarrow> False)"

section \<open>Properties of the zoom level\<close>

lemma getZoomLevel_span: "getZoomLevel b = zoom_of_span (span b)"
  by (auto simp: getZoomLevel_def span_def zoom_of_span_def Let_def)

lemma zoom_of_span_antimono: "s \<le> t \<Longrightarrow> zoom_of_span t \<le> zoom_of_span s"
  by (simp add: zoom_of_span_def)

text \<open>
  Claim C9. For every bounding box the zoom level is a step function of the larger of
  the latitude extent and the longitude extent: 6 above 10 degrees, 8 above 5, 10 above
  1, 12 above 0.1 and 14 for anything smaller, span 0 included. Hence a box with a
  larger span never gets a higher zoom level.
\<close>

theorem getZoomLevel_step_function:
  "getZoomLevel b =
     (if span b > 10 then 6 else if span b > 5 then 8 else if span b > 1 then 10
      else if span b > 0.1 then 12 else 14)
   \<and> (span b = 0 \<longrightarrow> getZoomLevel b = 14)
   \<and> (span b1 \<le> span b2 \<longrightarrow> getZoomLevel b2 \<le> getZoomLevel b1)"
  using zoom_of_span_antimono [of "span b1" "span b2"]
  by (simp add: getZoomLevel_span zoom_of_span_def)


theorem getZoomLevel_step_function_witness:
  "span \<lparr>ne = \<lparr>lat = 0.05, lng = 0\<rparr>, sw = \<lparr>lat = 0, lng = 0\<rparr>\<rparr>
     \<le> span \<lparr>ne = \<lparr>lat = 20, lng = 3\<rparr>, sw = \<lparr>lat = 0, lng = 0\<rparr>\<rparr>
   \<and> getZoomLevel \<lparr>ne = \<lparr>lat = 20, lng = 3\<rparr>, sw = \<lparr>lat = 0, lng = 0\<rparr>\<rparr> = 6
   \<and> getZoomLevel \<lparr>ne = \<lparr>lat = 0.05, lng = 0\<rparr>, sw = \<lparr>lat = 0, lng = 0\<rparr>\<rparr> = 14
   \<and> span \<lparr>ne = \<lparr>lat = 7, lng = 7\<rparr>, sw = \<lparr>lat = 7, lng = 7\<rparr>\<rparr> = 0
   \<and> getZoomLevel \<lparr>ne = \<lparr>lat = 7, lng = 7\<rparr>, sw = \<lparr>lat = 7, lng = 7\<rparr>\<rparr> = 14"
  using getZoomLevel_step_function
    [of "\<lparr>ne = \<lparr>lat = 7, lng = 7\<rparr>, sw = \<lparr>lat = 7, lng = 7\<rparr>\<rparr>"
        "\<lparr>ne = \<lparr>lat = 0.05, lng = 0\<rparr>, sw = \<lparr>lat = 0, lng = 0\<rparr>\<rparr>"
        "\<lparr>ne = \<lparr>lat = 20, lng = 3\<rparr>, sw = \<lparr>lat = 0, lng = 0\<rparr>\<rparr>"]
    getZoomLevel_step_function
    [of "\<lparr>ne = \<lparr>lat = 20, lng = 3\<rparr>, sw = \<lparr>lat = 0, lng = 0\<rparr>\<rparr>"]
    getZoomLevel_step_function
    [of "\<lparr>ne = \<lparr>lat = 0.05, lng = 0\<rparr>, sw = \<lparr>lat = 0, lng = 0\<rparr>\<rparr>"]
  by (simp add: span_def)

section \<open>Properties of the coordinate parser\<close>

lemma digit_not_special:
  "is_digit c \<Longrightarrow> c \<noteq> CHR ''-'' \<and> c \<noteq> CHR ''.'' \<and> c \<noteq> CHR '','' \<and> c \<noteq> CHR ''('' \<and> \<not> is_space c"
  by (auto simp: is_digit_def is_space_def)

lemma is_decimal_split:
  assumes "is_decimal n"
  obtains sg ip fr where "n = sg @ ip @ fr" "sg = [] \<or> sg = ''-''" "ip \<noteq> []"
    "list_all is_digit ip" "fr = [] \<or> (\<exists>fs. fr = CHR ''.'' # fs \<and> list_all is_digit fs)"
proof -
  define sg where "sg = (if n \<noteq> [] \<and> hd n = CHR ''-'' then ''-'' else [])"
  define body where "body = (if n \<noteq> [] \<and> hd n = CHR ''-'' then tl n else n)"
  define ip where "ip = takeWhile is_digit body"
  define fr where "fr = dropWhile is_digit body"
  have n: "n = sg @ body" unfolding sg_def body_def by (cases n) auto
  have b: "body = ip @ fr" unfolding ip_def fr_def by simp
  have ip: "ip \<noteq> []" and fr: "fr = [] \<or> (hd fr = CHR ''.'' \<and> list_all is_digit (tl fr))"
    using assms unfolding is_decimal_def Let_def ip_def fr_def body_def by auto
  have d: "list_all is_digit ip" unfolding ip_def list_all_iff by (auto dest: set_takeWhileD)
  have fr': "fr = [] \<or> (\<exists>fs. fr = CHR ''.'' # fs \<and> list_all is_digit fs)"
    using fr by (cases fr) auto
  show thesis
    by (rule that [of sg ip fr]) (use n b ip d fr' in \<open>auto simp: sg_def\<close>)
qed

lemma takeWhile_digits_append:
  "list_all is_digit ds \<Longrightarrow> r = [] \<or> \<not> is_digit (hd r) \<Longrightarrow>
   takeWhile is_digit (ds @ r) = ds \<and> dropWhile is_digit (ds @ r) = r"
proof (induction ds)
  case Nil
  then show ?case by (cases r) auto
next
  case (Cons d ds)
  then show ?case by simp
qed

lemma match_unsigned_decimal:
  assumes ip: "ip \<noteq> []" "list_all is_digit ip"
    and fr: "fr = [] \<or> (\<exists>fs. fr = CHR ''.'' # fs \<and> list_all is_digit fs)"
    and r: "r = [] \<or> (\<not> is_digit (hd r) \<and> hd r \<noteq> CHR ''.'')"
  shows "match_unsigned (ip @ fr @ r) = Some (ip @ fr, r)"
proof (cases "fr = []")
  case True
  have tw: "takeWhile is_digit (ip @ r) = ip \<and> dropWhile is_digit (ip @ r) = r"
    by (rule takeWhile_digits_append [OF ip(2)]) (use r in auto)
  have "match_unsigned (ip @ r) = Some (ip, r)"
    using ip(1) r unfolding match_unsigned_def Let_def conjunct1 [OF tw] conjunct2 [OF tw]
    by (cases r) auto
  then show ?thesis using True by simp
next
  case False
  then obtain fs where fs: "fr = CHR ''.'' # fs" "list_all is_digit fs" using fr by auto
  have nd: "\<not> is_digit (CHR ''.'')" by (simp add: is_digit_def)
  have tw1: "takeWhile is_digit (ip @ (CHR ''.'' # fs @ r)) = ip
      \<and> dropWhile is_digit (ip @ (CHR ''.'' # fs @ r)) = CHR ''.'' # fs @ r"
    by (rule takeWhile_digits_append [OF ip(2)]) (simp add: nd)
  have tw2: "takeWhile is_digit (fs @ r) = fs \<and> dropWhile is_digit (fs @ r) = r"
    by (rule takeWhile_digits_append [OF fs(2)]) (use r in auto)
  have "match_unsigned (ip @ CHR ''.'' # fs @ r) = Some (ip @ CHR ''.'' # fs, r)"
    using ip(1) unfolding match_unsigned_def Let_def conjunct1 [OF tw1] conjunct2 [OF tw1]
    by (simp add: tw2 del: takeWhile_append dropWhile_append)
  then show ?thesis using fs by simp
qed

lemma match_number_decimal:
  assumes "is_decimal n" and "r = [] \<or> (\<not> is_digit (hd r) \<and> hd r \<noteq> CHR ''.'')"
  shows "match_number (n @ r) = Some (n, r)"
proof -
  from assms(1) obtain sg ip fr where n: "n = sg @ ip @ fr" and sg: "sg = [] \<or> sg = ''-''"
    and ip: "ip \<noteq> []" "list_all is_digit ip"
    and fr: "fr = [] \<or> (\<exists>fs. fr = CHR ''.'' # fs \<and> list_all is_digit fs)"
    by (rule is_decimal_split)
  from ip obtain d ds where ipc: "ip = d # ds" and d: "is_digit d" by (cases ip) auto
  have hd_not_minus: "d \<noteq> CHR ''-''" using d digit_not_special by blast
  have body: "match_unsigned (ip @ fr @ r) = Some (ip @ fr, r)"
    by (rule match_unsigned_decimal [OF ip fr assms(2)])
  show ?thesis
  proof (cases "sg = []")
    case True
    then show ?thesis using body n ipc hd_not_minus by (simp add: match_number_def)
  next
    case False
    then have sg': "sg = ''-''" using sg by simp
    show ?thesis using body n sg' by (simp add: match_number_def)
  qed
qed

lemma paren_match_here_head: "c \<noteq> CHR ''('' \<Longrightarrow> paren_match_here (c # cs) = None"
  by (simp add: paren_match_here_def expect_char_def)

lemma paren_match_none: "CHR ''('' \<notin> set s \<Longrightarrow> paren_match s = None"
proof (induction s)
  case Nil
  show ?case by simp
next
  case (Cons a s)
  then have "a \<noteq> CHR ''(''" and "paren_match s = None" by auto
  then show ?case by (simp add: paren_match_here_head)
qed

lemma digits_no_paren: "list_all is_digit ds \<Longrightarrow> CHR ''('' \<notin> set ds"
  using digit_not_special by (auto simp: list_all_iff)

lemma is_decimal_chars:
  assumes "is_decimal n"
  shows "CHR ''('' \<notin> set n"
proof -
  from assms obtain sg ip fr where n: "n = sg @ ip @ fr" and sg: "sg = [] \<or> sg = ''-''"
    and ip: "list_all is_digit ip"
    and fr: "fr = [] \<or> (\<exists>fs. fr = CHR ''.'' # fs \<and> list_all is_digit fs)"
    by (rule is_decimal_split)
  have a: "CHR ''('' \<notin> set sg" using sg by auto
  have b: "CHR ''('' \<notin> set ip" by (rule digits_no_paren [OF ip])
  have c: "CHR ''('' \<notin> set fr" using fr digits_no_paren by auto
  show ?thesis using n a b c by simp
qed

text \<open>
  Claim C8, as amended. For every string that is, as it stands and with no white space
  before or after it, a decimal numeral, a comma, an optional space and a decimal
  numeral, the parser returns the values of the two numerals as the coordinates and the
  input string unchanged as the address.
\<close>

theorem parse_bare_pair:
  assumes "is_decimal n1" "is_decimal n2" "sp = [] \<or> sp = '' ''"
  shows "parseCoordinatesFromLocation (n1 @ '','' @ sp @ n2) =
           \<lparr>address = n1 @ '','' @ sp @ n2,
            coordinates = Some \<lparr>lat = parseFloat n1, lng = parseFloat n2\<rparr>\<rparr>"
proof -
  let ?s = "n1 @ '','' @ sp @ n2"
  have np: "paren_match ?s = None"
    using is_decimal_chars [OF assms(1)] is_decimal_chars [OF assms(2)] assms(3)
    by (intro paren_match_none) auto
  have m1: "match_number ?s = Some (n1, '','' @ sp @ n2)"
    by (rule match_number_decimal [OF assms(1)]) (simp add: is_digit_def)
  have m2: "match_number (n2 @ []) = Some (n2, [])"
    by (rule match_number_decimal [OF assms(2)]) simp
  have n2: "n2 \<noteq> [] \<and> \<not> is_space (hd n2)"
  proof -
    from assms(2) obtain sg ip fr where n: "n2 = sg @ ip @ fr" and sg: "sg = [] \<or> sg = ''-''"
      and ip: "ip \<noteq> []" "list_all is_digit ip"
      by (rule is_decimal_split)
    from ip obtain d ds where "ip = d # ds" "is_digit d" by (cases ip) auto
    then show ?thesis using n sg digit_not_special [of d] by (auto simp: is_space_def)
  qed
  have sp: "dropWhile is_space (sp @ n2) = n2"
    using assms(3) n2 by (cases n2) (auto simp: is_space_def)
  have nsc: "\<not> is_space (CHR '','')" by (simp add: is_space_def)
  have cm: "coord_match ?s = Some \<lparr>whole = ?s, group1 = n1, group2 = n2\<rparr>"
    using m1 m2 sp nsc by (simp add: coord_match_def expect_char_def)
  show ?thesis using np cm by (simp add: parseCoordinatesFromLocation_def)
qed


theorem parse_bare_pair_witness:
  "parseCoordinatesFromLocation ''40.7128,-74.0060'' =
     \<lparr>address = ''40.7128,-74.0060'', coordinates = Some \<lparr>lat = 40.7128, lng = -74.006\<rparr>\<rparr>"
proof -
  have a: "is_decimal ''40.7128''" by (simp add: is_decimal_def is_digit_def)
  have b: "is_decimal ''-74.0060''" by (simp add: is_decimal_def is_digit_def)
  show ?thesis using parse_bare_pair [OF a b, of "[]"]
    by (simp add: parseFloat_def digits_val_def digit_val_def is_digit_def)
qed

text \<open>
  Claim C8 as it is written speaks of the trimmed content of the string. The source
  matches the string as given: with a leading space the trimmed content is \<open>1,2\<close>,
  and the parser finds no coordinates.
\<close>

theorem parse_padded_pair_counterexample:
  "trim '' 1,2'' = ''1'' @ '','' @ [] @ ''2'' \<and> is_decimal ''1'' \<and> is_decimal ''2''
   \<and> parseCoordinatesFromLocation '' 1,2'' = \<lparr>address = '' 1,2'', coordinates = None\<rparr>"
  by (simp add: trim_def is_decimal_def is_digit_def is_space_def parseCoordinatesFromLocation_def
      paren_match_here_def coord_match_def match_number_def match_unsigned_def expect_char_def)

section \<open>Properties of the cache\<close>

lemma foldl_delete_filter:
  "foldl (\<lambda>c' kv. AList.delete (fst kv) c') c ks = filter (\<lambda>kv. fst kv \<notin> fst ` set ks) c"
proof (induction ks arbitrary: c)
  case Nil
  show ?case by simp
next
  case (Cons k ks)
  have "AList.delete (fst k) c = filter (\<lambda>kv. fst kv \<noteq> fst k) c"
    by (simp add: AList.delete_eq case_prod_unfold eq_commute)
  then show ?case using Cons.IH [of "AList.delete (fst k) c"]
    by (simp add: conj_commute)
qed

lemma enforce_filter:
  "enforceMaxCacheSize c =
     filter (\<lambda>kv. fst kv \<notin> fst ` set (take (length c - MAX_CACHE_SIZE) (sort_key ts c))) c"
  by (simp add: enforceMaxCacheSize_def Let_def foldl_delete_filter)


lemma filter_take_keys:
  assumes "distinct (map fst c)"
  shows "filter (\<lambda>kv. fst kv \<notin> fst ` set (take k c)) c = drop k c"
proof -
  have "distinct (map fst (take k c @ drop k c))" using assms by simp
  then have d: "fst ` set (take k c) \<inter> fst ` set (drop k c) = {}"
    unfolding map_append distinct_append by simp
  have a: "filter (\<lambda>kv. fst kv \<notin> fst ` set (take k c)) (take k c) = []"
    by (auto simp: filter_empty_conv)
  have b: "filter (\<lambda>kv. fst kv \<notin> fst ` set (take k c)) (drop k c) = drop k c"
    using d by (fastforce simp: filter_id_conv)
  have "filter (\<lambda>kv. fst kv \<notin> fst ` set (take k c)) (take k c @ drop k c) = drop k c"
    unfolding filter_append a b by simp
  then show ?thesis by simp
qed

lemma enforce_sorted:
  assumes "distinct (map fst c)" "sorted (map ts c)"
  shows "enforceMaxCacheSize c = drop (length c - MAX_CACHE_SIZE) c"
  using assms by (simp add: enforce_filter sort_key_id_if_sorted filter_take_keys)

lemma distinct_keys_sort: "distinct (map fst (sort_key f c)) = distinct (map fst c)"
  by (simp add: distinct_map)

lemma length_enforce:
  assumes "distinct (map fst c)"
  shows "length (enforceMaxCacheSize c) = min (length c) MAX_CACHE_SIZE"
proof -
  let ?es = "sort_key ts c"
  let ?k = "length c - MAX_CACHE_SIZE"
  let ?P = "\<lambda>kv. fst kv \<notin> fst ` set (take ?k ?es)"
  have "length (filter ?P c) = length (sort_key ts (filter ?P c))" by simp
  also have "\<dots> = length (filter ?P ?es)" by (simp only: filter_sort)
  also have "\<dots> = length (drop ?k ?es)"
    using filter_take_keys [of ?es ?k] assms by (simp add: distinct_keys_sort)
  finally show ?thesis by (simp add: enforce_filter)
qed

lemma enforce_subset: "set (enforceMaxCacheSize c) \<subseteq> set c"
  by (auto simp: enforce_filter)

lemma distinct_enforce: "distinct (map fst c) \<Longrightarrow> distinct (map fst (enforceMaxCacheSize c))"
  by (simp add: enforce_filter distinct_map_filter)

lemma update_append: "k \<notin> fst ` set c \<Longrightarrow> AList.update k v c = c @ [(k, v)]"
  by (induction c) auto






lemma cacheResult_cache:
  "geocodeCache (cacheResult e st addr loc) =
     enforceMaxCacheSize
       (AList.update (getCacheKey addr)
          \<lparr>data = loc, timestamp = clock e (ticks st), ttl = CACHE_TTL\<rparr> (geocodeCache st))"
  by (simp add: cacheResult_def Date_now_def Let_def)

lemma cacheResult_ticks: "ticks (cacheResult e st addr loc) = Suc (ticks st)"
  by (simp add: cacheResult_def Date_now_def Let_def)

lemma cacheResult_trace: "trace (cacheResult e st addr loc) = trace st"
  by (simp add: cacheResult_def Date_now_def Let_def)


lemma getCachedResult_absent:
  "map_of (geocodeCache st) (getCacheKey addr) = None \<Longrightarrow>
   getCachedResult e st addr = (st\<lparr>trace := trace st @ [CacheGet (getCacheKey addr)]\<rparr>, None)"
  by (simp add: getCachedResult_def Let_def)



lemma set_update_subset: "set (AList.update k v c) \<subseteq> insert (k, v) (set c)"
  by (induction c) auto

lemma cache_ok_cacheResult:
  assumes "mono (clock e)" "cache_ok e st"
  shows "cache_ok e (cacheResult e st addr loc)"
proof -
  let ?entry = "\<lparr>data = loc, timestamp = clock e (ticks st), ttl = CACHE_TTL\<rparr>"
  let ?u = "AList.update (getCacheKey addr) ?entry (geocodeCache st)"
  have d: "distinct (map fst ?u)" using assms(2) by (simp add: cache_ok_def AList.distinct_update)
  have le: "clock e (ticks st) \<le> clock e (Suc (ticks st))"
    using assms(1) by (simp add: mono_def)
  have "set ?u \<subseteq> insert (getCacheKey addr, ?entry) (set (geocodeCache st))"
    by (rule set_update_subset)
  then have t: "\<forall>kv \<in> set ?u. timestamp (snd kv) \<le> clock e (Suc (ticks st))"
    using assms(2) le by (fastforce simp: cache_ok_def)
  show ?thesis
    unfolding cache_ok_def cacheResult_cache cacheResult_ticks
    using distinct_enforce [OF d] length_enforce [OF d] t enforce_subset [of ?u]
    by auto
qed

lemma drop_chain:
  fixes ys zs :: "'a list"
  shows "drop (length (drop (length ys - m) ys) + length zs - m) (drop (length ys - m) ys @ zs)
         = drop (length ys + length zs - m) (ys @ zs)"
proof (cases "length ys \<le> m")
  case True
  then show ?thesis by simp
next
  case False
  let ?d = "length ys - m"
  have len: "length (drop ?d ys) = m" using False by simp
  have "drop (length ys + length zs - m) (ys @ zs) = drop (length zs + ?d) (ys @ zs)"
    using False by (simp add: add.commute)
  also have "\<dots> = drop (length zs) (drop ?d (ys @ zs))" by (simp only: drop_drop)
  also have "drop ?d (ys @ zs) = drop ?d ys @ zs" by simp
  finally show ?thesis unfolding len by simp
qed

lemma inserted_Cons:
  "inserted e n (al # xs) =
     (getCacheKey (fst al), \<lparr>data = snd al, timestamp = clock e n, ttl = CACHE_TTL\<rparr>)
       # inserted e (Suc n) xs"
  by (simp add: inserted_def)

lemma inserted_keys: "map fst (inserted e n xs) = map (getCacheKey \<circ> fst) xs"
  by (induction xs arbitrary: n) (simp_all add: inserted_def)

lemma length_inserted: "length (inserted e n xs) = length xs"
  by (simp add: inserted_def)

lemma inserted_ts:
  "mono (clock e) \<Longrightarrow> sorted (map ts (inserted e n xs)) \<and> (\<forall>kv \<in> set (inserted e n xs). clock e n \<le> ts kv)"
proof (induction xs arbitrary: n)
  case Nil
  show ?case by (simp add: inserted_def)
next
  case (Cons al xs)
  have le: "clock e n \<le> clock e (Suc n)" using Cons.prems by (simp add: mono_def)
  from Cons.IH [OF Cons.prems, of "Suc n"] le show ?case
    unfolding inserted_Cons by fastforce
qed

lemma distinct_drop_append:
  "distinct (map fst ys @ ks) \<Longrightarrow> distinct (map fst (drop d ys) @ ks)"
proof -
  assume a: "distinct (map fst ys @ ks)"
  have "set (drop d (map fst ys)) \<subseteq> set (map fst ys)" by (rule set_drop_subset)
  moreover have "distinct (drop d (map fst ys))" using a by (simp add: distinct_drop)
  ultimately show ?thesis using a unfolding drop_map distinct_append by blast
qed

lemma cacheResult_all_general:
  assumes m: "mono (clock e)"
  shows "sorted (map ts (geocodeCache st)) \<Longrightarrow>
         \<forall>kv \<in> set (geocodeCache st). ts kv \<le> clock e (ticks st) \<Longrightarrow>
         length (geocodeCache st) \<le> MAX_CACHE_SIZE \<Longrightarrow>
         distinct (map fst (geocodeCache st) @ map (getCacheKey \<circ> fst) xs) \<Longrightarrow>
         geocodeCache (cacheResult_all e st xs) =
           drop (length (geocodeCache st) + length xs - MAX_CACHE_SIZE)
                (geocodeCache st @ inserted e (ticks st) xs)"
proof (induction xs arbitrary: st)
  case Nil
  then show ?case by (simp add: cacheResult_all_def inserted_def)
next
  case (Cons al xs)
  let ?c = "geocodeCache st"
  let ?k = "getCacheKey (fst al)"
  let ?x = "(?k, \<lparr>data = snd al, timestamp = clock e (ticks st), ttl = CACHE_TTL\<rparr>)"
  let ?ys = "?c @ [?x]"
  let ?st1 = "cacheResult e st (fst al) (snd al)"
  have fresh: "?k \<notin> fst ` set ?c" using Cons.prems(4) by auto
  have dys: "distinct (map fst ?ys)" using Cons.prems(4) by auto
  have sys: "sorted (map ts ?ys)"
    using Cons.prems(1,2) by (simp add: sorted_append)
  have c1: "geocodeCache ?st1 = drop (length ?ys - MAX_CACHE_SIZE) ?ys"
    unfolding cacheResult_cache update_append [OF fresh]
    by (rule enforce_sorted [OF dys sys])
  have le: "clock e (ticks st) \<le> clock e (Suc (ticks st))" using m by (simp add: mono_def)
  have p1: "sorted (map ts (geocodeCache ?st1))"
    unfolding c1 using sys by (simp only: drop_map [symmetric] sorted_wrt_drop)
  have p2: "\<forall>kv \<in> set (geocodeCache ?st1). ts kv \<le> clock e (ticks ?st1)"
  proof
    fix kv assume "kv \<in> set (geocodeCache ?st1)"
    then have "kv \<in> set ?ys" unfolding c1 by (rule in_set_dropD)
    then show "ts kv \<le> clock e (ticks ?st1)"
      using Cons.prems(2) le by (auto simp: cacheResult_ticks)
  qed
  have p3: "length (geocodeCache ?st1) \<le> MAX_CACHE_SIZE"
    unfolding c1 using Cons.prems(3) by simp
  have "distinct (map fst ?ys @ map (getCacheKey \<circ> fst) xs)"
    using Cons.prems(4) by (simp add: comp_def)
  then have p4: "distinct (map fst (geocodeCache ?st1) @ map (getCacheKey \<circ> fst) xs)"
    unfolding c1 by (rule distinct_drop_append)
  have "geocodeCache (cacheResult_all e st (al # xs)) = geocodeCache (cacheResult_all e ?st1 xs)"
    by (simp add: cacheResult_all_def)
  also have "\<dots> = drop (length (geocodeCache ?st1) + length xs - MAX_CACHE_SIZE)
                       (geocodeCache ?st1 @ inserted e (ticks ?st1) xs)"
    by (rule Cons.IH [OF p1 p2 p3 p4])
  also have "\<dots> = drop (length ?ys + length xs - MAX_CACHE_SIZE)
                       (?ys @ inserted e (Suc (ticks st)) xs)"
    unfolding c1 cacheResult_ticks
    using drop_chain [of ?ys MAX_CACHE_SIZE "inserted e (Suc (ticks st)) xs"]
    by (simp only: length_inserted)
  finally show ?case by (simp add: inserted_Cons)
qed

lemma getCachedResult_hit_cache:
  "snd (getCachedResult e st addr) \<noteq> None \<Longrightarrow>
   geocodeCache (fst (getCachedResult e st addr)) = geocodeCache st"
  by (auto simp: getCachedResult_def Let_def Date_now_def split: option.splits if_splits)

text \<open>
  Claim C7. After every insertion the cache holds at most \<open>MAX_CACHE_SIZE\<close> = 1000
  entries. Inserting addresses with distinct keys into the empty cache leaves the
  entries of the last 1000 insertions and no others: of \<open>1000 + k\<close> insertions, the
  \<open>k\<close> oldest are evicted. A lookup that hits does not change the cache, so reading
  does not promote an entry.
\<close>

theorem cache_eviction_fifo:
  assumes "mono (clock e)" and "geocodeCache st = []"
    and "distinct (map (getCacheKey \<circ> fst) xs)"
    and "distinct (map fst (geocodeCache st'))"
  shows "MAX_CACHE_SIZE = 1000
         \<and> length (geocodeCache (cacheResult e st' addr loc)) \<le> MAX_CACHE_SIZE
         \<and> geocodeCache (cacheResult_all e st xs)
             = drop (length xs - MAX_CACHE_SIZE) (inserted e (ticks st) xs)
         \<and> length (geocodeCache (cacheResult_all e st xs)) = min (length xs) MAX_CACHE_SIZE
         \<and> (snd (getCachedResult e st' addr) \<noteq> None \<longrightarrow>
              geocodeCache (fst (getCachedResult e st' addr)) = geocodeCache st')"
proof -
  have a: "length (geocodeCache (cacheResult e st' addr loc)) \<le> MAX_CACHE_SIZE"
    unfolding cacheResult_cache
    by (subst length_enforce) (use assms(4) in \<open>simp_all add: AList.distinct_update\<close>)
  have b: "geocodeCache (cacheResult_all e st xs)
             = drop (length xs - MAX_CACHE_SIZE) (inserted e (ticks st) xs)"
    using cacheResult_all_general [OF assms(1), of st xs] assms(2,3) by simp
  have c: "length (geocodeCache (cacheResult_all e st xs)) = min (length xs) MAX_CACHE_SIZE"
    unfolding b by (simp add: length_inserted)
  show ?thesis using a b c getCachedResult_hit_cache [of e st' addr]
    by (simp add: MAX_CACHE_SIZE_def)
qed


lemma getCacheKey_replicate_a: "getCacheKey (replicate i CHR ''a'') = replicate i CHR ''a''"
  by (simp add: getCacheKey_def trim_def toLowerCase_def lower_char_def is_space_def
      dropWhile_replicate)

theorem cache_eviction_fifo_witness:
  "mono (clock seconds_env) \<and> geocodeCache initial_state = []
   \<and> distinct (map (getCacheKey \<circ> fst)
        (map (\<lambda>i. (replicate i CHR ''a'', sample_location)) [1..<1002]))
   \<and> length (geocodeCache (cacheResult_all seconds_env initial_state
        (map (\<lambda>i. (replicate i CHR ''a'', sample_location)) [1..<1002]))) = 1000
   \<and> map fst (geocodeCache (cacheResult_all seconds_env initial_state
        (map (\<lambda>i. (replicate i CHR ''a'', sample_location)) [1..<1002])))
       = map (\<lambda>i. replicate i CHR ''a'') [2..<1002]"
proof -
  let ?xs = "map (\<lambda>i. (replicate i CHR ''a'', sample_location)) [1..<1002]"
  have h1: "mono (clock seconds_env)" by (simp add: seconds_env_def mono_def)
  have h2: "geocodeCache initial_state = []" by (simp add: initial_state_def)
  have keys: "map (getCacheKey \<circ> fst) ?xs = map (\<lambda>i. replicate i CHR ''a'') [1..<1002]"
    by (simp add: comp_def getCacheKey_replicate_a)
  have h3: "distinct (map (getCacheKey \<circ> fst) ?xs)"
    unfolding keys by (simp add: distinct_map inj_on_def)
  have h4: "distinct (map fst (geocodeCache initial_state))" by (simp add: initial_state_def)
  note ev = cache_eviction_fifo [OF h1 h2 h3 h4, of "''a''" sample_location]
  have len: "length (geocodeCache (cacheResult_all seconds_env initial_state ?xs)) = 1000"
    using ev by (simp add: MAX_CACHE_SIZE_def length_inserted)
  have eq: "geocodeCache (cacheResult_all seconds_env initial_state ?xs)
        = drop (length ?xs - MAX_CACHE_SIZE) (inserted seconds_env (ticks initial_state) ?xs)"
    using ev by blast
  have d1: "length ?xs - MAX_CACHE_SIZE = 1" by (simp add: MAX_CACHE_SIZE_def)
  have "map fst (geocodeCache (cacheResult_all seconds_env initial_state ?xs))
        = drop 1 (map (getCacheKey \<circ> fst) ?xs)"
    unfolding eq d1 by (simp only: drop_map [symmetric] inserted_keys)
  also have "\<dots> = map (\<lambda>i. replicate i CHR ''a'') (drop 1 [1..<1002])"
    unfolding keys by (simp only: drop_map)
  also have "drop 1 [1..<1002] = [2..<(1002::nat)]" by (simp only: drop_upt one_add_one)
  finally have ks: "map fst (geocodeCache (cacheResult_all seconds_env initial_state ?xs))
        = map (\<lambda>i. replicate i CHR ''a'') [2..<1002]" .
  from h1 h2 h3 len ks show ?thesis by (intro conjI)
qed

section \<open>Properties of address resolution\<close>

lemma trim_empty_iff: "trim s = [] \<longleftrightarrow> is_blank s"
proof -
  have "dropWhile is_space (rev (dropWhile is_space s)) = [] \<longleftrightarrow> dropWhile is_space s = []"
  proof (cases "dropWhile is_space s = []")
    case True
    then show ?thesis by (simp del: dropWhile_eq_Nil_conv)
  next
    case False
    then have "\<not> is_space (hd (dropWhile is_space s))" by (rule hd_dropWhile)
    moreover have "hd (dropWhile is_space s) \<in> set (dropWhile is_space s)" using False by simp
    ultimately have "\<not> (\<forall>x \<in> set (rev (dropWhile is_space s)). is_space x)" by auto
    then show ?thesis using False by (simp only: dropWhile_eq_Nil_conv)
  qed
  then show ?thesis
    by (simp add: trim_def is_blank_def dropWhile_eq_Nil_conv list_all_iff)
qed

lemma is_space_lower_char: "is_space (lower_char c) = is_space c"
  by (auto simp: lower_char_def is_space_def split: option.splits if_splits)

lemma is_blank_toLowerCase: "is_blank (toLowerCase s) = is_blank s"
  by (simp add: is_blank_def toLowerCase_def list_all_iff is_space_lower_char)

lemma getCacheKey_empty_iff: "getCacheKey addr = [] \<longleftrightarrow> is_blank addr"
  by (simp add: getCacheKey_def trim_empty_iff is_blank_toLowerCase)

lemma is_blank_Nil: "addr = [] \<Longrightarrow> is_blank addr"
  by (simp add: is_blank_def)

lemma begin_blank:
  assumes "is_blank addr" "map_of (geocodeCache st) [] = None"
  shows "geocodeAddress_begin e st addr =
           (st\<lparr>trace := trace st @ [CacheGet []]\<rparr>, Settled (Inl (Error ''Address is required'')))"
proof -
  have k: "getCacheKey addr = []" using assms(1) by (simp add: getCacheKey_empty_iff)
  have t: "trim addr = []" using assms(1) by (simp add: trim_empty_iff)
  have "getCachedResult e st addr = (st\<lparr>trace := trace st @ [CacheGet []]\<rparr>, None)"
    using getCachedResult_absent [of st addr e] assms(2) k by simp
  then show ?thesis by (simp add: geocodeAddress_begin_def t)
qed

text \<open>
  Claim C5, as amended. For every address that is empty or consists of white space
  only, \<open>geocodeAddress\<close> first looks the normalised key, the empty string, up in the
  cache: the cache check comes before the validation of the input. No entry is ever
  stored under the empty key (\<open>geocodeAddress_no_blank_key\<close> below), so the lookup
  misses and the call fails with the error \<open>Address is required\<close>. No request is sent
  to the provider, the clock is not read and the cache is unchanged.
\<close>

theorem blank_address_rejected:
  assumes "is_blank addr" and "map_of (geocodeCache st) [] = None"
  shows "geocodeAddress e st addr =
           (st\<lparr>trace := trace st @ [CacheGet []]\<rparr>, Inl (Error ''Address is required''))"
  by (simp add: geocodeAddress_def begin_blank [OF assms])

theorem blank_address_rejected_witness:
  "is_blank [CHR '' '', CHR 0x09] \<and> map_of (geocodeCache initial_state) [] = None
   \<and> geocodeAddress seconds_env initial_state [CHR '' '', CHR 0x09] =
        (\<lparr>geocodeCache = [], ticks = 0, trace = [CacheGet []]\<rparr>,
         Inl (Error ''Address is required''))"
proof -
  have a: "is_blank [CHR '' '', CHR 0x09]" by (simp add: is_blank_def is_space_def)
  have b: "map_of (geocodeCache initial_state) [] = None" by (simp add: initial_state_def)
  show ?thesis using blank_address_rejected [OF a b, of seconds_env] a b
    by (simp add: initial_state_def)
qed

text \<open>
  Claim C5 as it is written says that no cache lookup is made for such an input. On the
  address that is one space, in the state of a freshly loaded module, the call looks
  the empty key up.
\<close>

theorem blank_address_lookup_counterexample:
  "is_blank '' '' \<and> trace initial_state = []
   \<and> trace (fst (geocodeAddress seconds_env initial_state '' '')) = [CacheGet []]"
  by (simp add: is_blank_def is_space_def initial_state_def geocodeAddress_def
      geocodeAddress_begin_def getCachedResult_def getCacheKey_def trim_def toLowerCase_def
      lower_char_def Let_def)

lemma getCachedResult_None_cache:
  "getCachedResult e st addr = (st1, None) \<Longrightarrow>
   geocodeCache st1 = AList.delete (getCacheKey addr) (geocodeCache st)"
  by (auto simp: getCachedResult_def Let_def Date_now_def map_of_eq_None_iff
      split: option.splits if_splits)

lemma getCachedResult_trace:
  "trace (fst (getCachedResult e st addr)) = trace st @ [CacheGet (getCacheKey addr)]"
  by (auto simp: getCachedResult_def Let_def Date_now_def split: option.splits)

lemma begin_cache:
  "geocodeAddress_begin e st addr = (st1, p) \<Longrightarrow> (\<forall>l. p \<noteq> Settled (Inr l)) \<Longrightarrow>
   geocodeCache st1 = AList.delete (getCacheKey addr) (geocodeCache st)"
  by (auto simp: geocodeAddress_begin_def dest: getCachedResult_None_cache
      split: prod.splits option.splits if_splits)

lemma finish_failure_state:
  "geocodeAddress_finish e st addr outcome = (st', Inl err) \<Longrightarrow> st' = st"
  by (auto simp: geocodeAddress_finish_def Let_def
      split: fetch_outcome.splits option.splits list.splits if_splits)

lemma finish_trace: "trace (fst (geocodeAddress_finish e st addr outcome)) = trace st"
  by (auto simp: geocodeAddress_finish_def Let_def cacheResult_trace
      split: fetch_outcome.splits option.splits list.splits)

lemma failure_cache:
  assumes "geocodeAddress e st addr = (st', Inl err)"
  shows "geocodeCache st' = AList.delete (getCacheKey addr) (geocodeCache st)"
proof (cases "geocodeAddress_begin e st addr")
  case (Pair st1 p)
  show ?thesis
  proof (cases p)
    case (Settled r)
    then have "st' = st1" "r = Inl err" using assms Pair by (auto simp: geocodeAddress_def)
    then show ?thesis using begin_cache [OF Pair] Settled by auto
  next
    case (InFlight outcome)
    then have "geocodeAddress_finish e st1 addr outcome = (st', Inl err)"
      using assms Pair by (simp add: geocodeAddress_def)
    then have "st' = st1" by (rule finish_failure_state)
    then show ?thesis using begin_cache [OF Pair] InFlight by auto
  qed
qed

lemma begin_fetches:
  assumes "map_of (geocodeCache st) (getCacheKey addr) = None" "\<not> is_blank addr"
    "apiKey e \<noteq> None" "apiKey e \<noteq> Some []"
  shows "geocodeAddress_begin e st addr =
           (st\<lparr>trace := trace st @ [CacheGet (getCacheKey addr), Fetch addr]\<rparr>,
            InFlight (provider e (fetch_count st) addr))"
proof -
  have t: "trim addr \<noteq> []" "addr \<noteq> []"
    using assms(2) by (auto simp: trim_empty_iff is_blank_Nil)
  have fc: "fetch_count (st\<lparr>trace := trace st @ [CacheGet (getCacheKey addr)]\<rparr>) = fetch_count st"
    by (simp add: fetch_count_def)
  show ?thesis
    using assms(3,4) t fc
    by (simp add: geocodeAddress_begin_def getCachedResult_absent [OF assms(1)])
qed

text \<open>
  Claim C10, as amended. Whenever \<open>geocodeAddress\<close> fails, no entry has been added to
  the cache or modified; the only change it can have made is the lazy expiry of the
  entry stored under the key of the address itself, which the cache check at the start
  of the call removes when its age exceeds its time to live. If no entry was stored
  under that key the cache is exactly unchanged. After the failure the key is absent,
  so the next call for the same address, when the address is not blank and a credential
  is configured, misses the cache and sends a request to the provider again.
\<close>

theorem failure_leaves_cache:
  assumes "geocodeAddress e st addr = (st', Inl err)"
  shows "geocodeCache st' = AList.delete (getCacheKey addr) (geocodeCache st)
         \<and> (map_of (geocodeCache st) (getCacheKey addr) = None \<longrightarrow>
              geocodeCache st' = geocodeCache st)
         \<and> map_of (geocodeCache st') (getCacheKey addr) = None
         \<and> (\<not> is_blank addr \<and> apiKey e \<noteq> None \<and> apiKey e \<noteq> Some [] \<longrightarrow>
              trace (fst (geocodeAddress e st' addr))
                = trace st' @ [CacheGet (getCacheKey addr), Fetch addr])"
proof -
  have c: "geocodeCache st' = AList.delete (getCacheKey addr) (geocodeCache st)"
    by (rule failure_cache [OF assms])
  have n: "map_of (geocodeCache st') (getCacheKey addr) = None"
    unfolding c by (simp add: AList.delete_conv')
  have same: "map_of (geocodeCache st) (getCacheKey addr) = None \<longrightarrow>
              geocodeCache st' = geocodeCache st"
    unfolding c by (simp add: map_of_eq_None_iff)
  have again: "trace (fst (geocodeAddress e st' addr))
                = trace st' @ [CacheGet (getCacheKey addr), Fetch addr]"
    if "\<not> is_blank addr" "apiKey e \<noteq> None" "apiKey e \<noteq> Some []"
    using finish_trace by (simp add: geocodeAddress_def begin_fetches [OF n that])
  show ?thesis using c n same again by blast
qed

lemmas eval_defs = geocodeAddress_def geocodeAddress_begin_def geocodeAddress_finish_def
  getCachedResult_def cacheResult_def enforceMaxCacheSize_def Date_now_def getCacheKey_def
  trim_def toLowerCase_def lower_char_def is_space_def fetch_count_def build_location_def
  initial_state_def Let_def MAX_CACHE_SIZE_def CACHE_TTL_def

lemma first_call:
  "geocodeAddress flaky_env initial_state ''Paris'' =
     (\<lparr>geocodeCache = [(''paris'', \<lparr>data = sample_location, timestamp = 0, ttl = 3600000\<rparr>)],
       ticks = 1, trace = [CacheGet ''paris'', Fetch ''Paris'']\<rparr>,
      Inr sample_location)"
  by (simp add: eval_defs flaky_env_def sample_result_def sample_location_def)

lemma second_call:
  "geocodeAddress flaky_env
     \<lparr>geocodeCache = [(''paris'', \<lparr>data = sample_location, timestamp = 0, ttl = 3600000\<rparr>)],
       ticks = 1, trace = [CacheGet ''paris'', Fetch ''Paris'']\<rparr> ''Paris'' =
     (\<lparr>geocodeCache = [], ticks = 2,
       trace = [CacheGet ''paris'', Fetch ''Paris'', CacheGet ''paris'', Fetch ''Paris'']\<rparr>,
      Inl (Error ''Geocoding API error: 503''))"
  by (simp add: eval_defs flaky_env_def)

lemma far_call:
  "geocodeAddress far_env initial_state ''Nowhere'' =
     (\<lparr>geocodeCache =
         [(''nowhere'',
           \<lparr>data = \<lparr>loc_address = ''Nowhere'', formattedAddress = ''Paris, France'',
                     loc_coordinates = \<lparr>lat = 91, lng = 181\<rparr>, placeId = Some ''p1'',
                     loc_components = None\<rparr>,
            timestamp = 0, ttl = 3600000\<rparr>)],
       ticks = 1, trace = [CacheGet ''nowhere'', Fetch ''Nowhere'']\<rparr>,
      Inr \<lparr>loc_address = ''Nowhere'', formattedAddress = ''Paris, France'',
           loc_coordinates = \<lparr>lat = 91, lng = 181\<rparr>, placeId = Some ''p1'',
           loc_components = None\<rparr>)"
  by (simp add: eval_defs far_env_def sample_result_def)

theorem failure_leaves_cache_witness:
  "geocodeAddress flaky_env
     \<lparr>geocodeCache = [(''paris'', \<lparr>data = sample_location, timestamp = 0, ttl = 3600000\<rparr>)],
       ticks = 1, trace = [CacheGet ''paris'', Fetch ''Paris'']\<rparr> ''Paris'' =
     (\<lparr>geocodeCache = [], ticks = 2,
       trace = [CacheGet ''paris'', Fetch ''Paris'', CacheGet ''paris'', Fetch ''Paris'']\<rparr>,
      Inl (Error ''Geocoding API error: 503''))
   \<and> AList.delete (getCacheKey ''Paris'')
        [(''paris'', \<lparr>data = sample_location, timestamp = 0, ttl = 3600000\<rparr>)] = []
   \<and> trace (fst (geocodeAddress flaky_env
        \<lparr>geocodeCache = [], ticks = 2,
          trace = [CacheGet ''paris'', Fetch ''Paris'', CacheGet ''paris'', Fetch ''Paris'']\<rparr>
        ''Paris''))
       = [CacheGet ''paris'', Fetch ''Paris'', CacheGet ''paris'', Fetch ''Paris'',
          CacheGet ''paris'', Fetch ''Paris'']"
proof -
  have nb: "\<not> is_blank ''Paris''" by (simp add: is_blank_def is_space_def)
  have k: "getCacheKey ''Paris'' = ''paris''"
    by (simp add: getCacheKey_def trim_def toLowerCase_def lower_char_def is_space_def)
  have key: "apiKey flaky_env \<noteq> None \<and> apiKey flaky_env \<noteq> Some []"
    by (simp add: flaky_env_def)
  show ?thesis
    using failure_leaves_cache [OF second_call] second_call nb k key by simp
qed

text \<open>
  Claim C10 as it is written says that a failed call leaves the cache exactly unchanged.
  A first call caches Paris at time 0; the clock then reads one day later, the
  provider answers with status 503, and the second call fails after having removed the
  expired entry.
\<close>

theorem failure_removes_expired_counterexample:
  "geocodeAddress flaky_env
     \<lparr>geocodeCache = [(''paris'', \<lparr>data = sample_location, timestamp = 0, ttl = 3600000\<rparr>)],
       ticks = 1, trace = [CacheGet ''paris'', Fetch ''Paris'']\<rparr> ''Paris'' =
     (\<lparr>geocodeCache = [], ticks = 2,
       trace = [CacheGet ''paris'', Fetch ''Paris'', CacheGet ''paris'', Fetch ''Paris'']\<rparr>,
      Inl (Error ''Geocoding API error: 503''))
   \<and> geocodeCache (fst (geocodeAddress flaky_env initial_state ''Paris''))
       = [(''paris'', \<lparr>data = sample_location, timestamp = 0, ttl = 3600000\<rparr>)]"
  by (simp add: eval_defs flaky_env_def sample_result_def sample_location_def)

text \<open>
  Claim C2 as it is written covers the results of the provider. The first candidate of
  the provider has latitude 91 and longitude 181: \<open>geocodeAddress\<close> writes it to the
  cache and returns it as a success.
\<close>

theorem provider_out_of_range_counterexample:
  "geocodeAddress far_env initial_state ''Nowhere'' =
     (\<lparr>geocodeCache =
         [(''nowhere'',
           \<lparr>data = \<lparr>loc_address = ''Nowhere'', formattedAddress = ''Paris, France'',
                     loc_coordinates = \<lparr>lat = 91, lng = 181\<rparr>, placeId = Some ''p1'',
                     loc_components = None\<rparr>,
            timestamp = 0, ttl = 3600000\<rparr>)],
       ticks = 1, trace = [CacheGet ''nowhere'', Fetch ''Nowhere'']\<rparr>,
      Inr \<lparr>loc_address = ''Nowhere'', formattedAddress = ''Paris, France'',
           loc_coordinates = \<lparr>lat = 91, lng = 181\<rparr>, placeId = Some ''p1'',
           loc_components = None\<rparr>)
   \<and> \<not> isValidCoordinates 91 181"
  by (simp add: eval_defs far_env_def sample_result_def isValidCoordinates_def)

lemma parse_Nil: "coordinates (parseCoordinatesFromLocation []) = None"
  by (simp add: parseCoordinatesFromLocation_def coord_match_def match_number_def)

lemma geocodeAddress_trace_grows:
  "trace (fst (geocodeAddress e st addr)) \<noteq> trace st"
proof (cases "geocodeAddress_begin e st addr")
  case (Pair st1 p)
  have "length (trace st1) > length (trace st)"
    using Pair getCachedResult_trace [of e st addr]
    by (auto simp: geocodeAddress_begin_def split: prod.splits option.splits if_splits)
  moreover have "trace (fst (geocodeAddress e st addr)) = trace st1"
    using Pair finish_trace by (cases p) (auto simp: geocodeAddress_def)
  ultimately show ?thesis by auto
qed

text \<open>
  Claim C4, as amended. For every address in which \<open>parseCoordinatesFromLocation\<close>
  finds a pair of coordinates that passes \<open>isValidCoordinates\<close>, the route handler
  \<open>POST\<close>, on a request for that single address, returns a location built from the
  address itself: the formatted address is the address, there is no place identifier
  and there are no components. The state is unchanged: the cache is not read or written
  and no request is sent to the provider. The shortcut is part of the route handler
  only; \<open>geocodeAddress\<close> does not parse its argument.
\<close>

theorem shortcut_success:
  assumes "coordinates (parseCoordinatesFromLocation addr) = Some c"
    and "isValidCoordinates (lat c) (lng c)"
  shows "POST e st (single_request addr) =
           Some (st, SingleOk \<lparr>loc_address = addr, formattedAddress = addr,
                               loc_coordinates = c, placeId = None, loc_components = None\<rparr>)"
proof -
  have "addr \<noteq> []" using assms(1) parse_Nil by auto
  then show ?thesis using assms by (simp add: POST_def single_request_def Let_def)
qed

theorem shortcut_success_witness:
  "coordinates (parseCoordinatesFromLocation ''Office (37.7749, -122.4194)'')
     = Some \<lparr>lat = 37.7749, lng = -122.4194\<rparr>
   \<and> isValidCoordinates 37.7749 (-122.4194)
   \<and> POST far_env initial_state (single_request ''Office (37.7749, -122.4194)'') =
       Some (initial_state,
             SingleOk \<lparr>loc_address = ''Office (37.7749, -122.4194)'',
                       formattedAddress = ''Office (37.7749, -122.4194)'',
                       loc_coordinates = \<lparr>lat = 37.7749, lng = -122.4194\<rparr>,
                       placeId = None, loc_components = None\<rparr>)"
proof -
  have a: "coordinates (parseCoordinatesFromLocation ''Office (37.7749, -122.4194)'')
     = Some \<lparr>lat = 37.7749, lng = -122.4194\<rparr>"
    by (simp add: parseCoordinatesFromLocation_def paren_match_here_def match_number_def
        match_unsigned_def expect_char_def is_digit_def is_space_def parseFloat_def
        digits_val_def digit_val_def)
  have b: "isValidCoordinates (lat \<lparr>lat = 37.7749, lng = -122.4194\<rparr>)
             (lng \<lparr>lat = 37.7749, lng = -122.4194\<rparr>)"
    by (simp add: isValidCoordinates_def)
  show ?thesis using shortcut_success [OF a b, of far_env initial_state] a b by simp
qed

text \<open>
  Claim C4 as it is written speaks of the resolution of a single address, which
  \<open>geocodeAddress\<close> performs for the batch and for the calendar events. The address
  \<open>1,2\<close> holds a pair of coordinates in range; \<open>geocodeAddress\<close> sends a request to
  the provider for it, returns the candidate of the provider and caches it under the
  address.
\<close>

theorem geocodeAddress_no_shortcut_counterexample:
  "coordinates (parseCoordinatesFromLocation ''1,2'') = Some \<lparr>lat = 1, lng = 2\<rparr>
   \<and> isValidCoordinates 1 2
   \<and> geocodeAddress flaky_env initial_state ''1,2'' =
       (\<lparr>geocodeCache =
           [(''1,2'',
             \<lparr>data = \<lparr>loc_address = ''1,2'', formattedAddress = ''Paris, France'',
                       loc_coordinates = \<lparr>lat = 48.8566, lng = 2.3522\<rparr>,
                       placeId = Some ''p1'', loc_components = None\<rparr>,
              timestamp = 0, ttl = 3600000\<rparr>)],
         ticks = 1, trace = [CacheGet ''1,2'', Fetch ''1,2'']\<rparr>,
        Inr \<lparr>loc_address = ''1,2'', formattedAddress = ''Paris, France'',
             loc_coordinates = \<lparr>lat = 48.8566, lng = 2.3522\<rparr>,
             placeId = Some ''p1'', loc_components = None\<rparr>)"
proof -
  have a: "coordinates (parseCoordinatesFromLocation ''1,2'') = Some \<lparr>lat = 1, lng = 2\<rparr>"
    by (simp add: parseCoordinatesFromLocation_def paren_match_here_def coord_match_def
        match_number_def match_unsigned_def expect_char_def is_digit_def is_space_def
        parseFloat_def digits_val_def digit_val_def)
  have b: "isValidCoordinates 1 2" by (simp add: isValidCoordinates_def)
  have c: "geocodeAddress flaky_env initial_state ''1,2'' =
       (\<lparr>geocodeCache =
           [(''1,2'',
             \<lparr>data = \<lparr>loc_address = ''1,2'', formattedAddress = ''Paris, France'',
                       loc_coordinates = \<lparr>lat = 48.8566, lng = 2.3522\<rparr>,
                       placeId = Some ''p1'', loc_components = None\<rparr>,
              timestamp = 0, ttl = 3600000\<rparr>)],
         ticks = 1, trace = [CacheGet ''1,2'', Fetch ''1,2'']\<rparr>,
        Inr \<lparr>loc_address = ''1,2'', formattedAddress = ''Paris, France'',
             loc_coordinates = \<lparr>lat = 48.8566, lng = 2.3522\<rparr>,
             placeId = Some ''p1'', loc_components = None\<rparr>)"
    by (simp add: eval_defs flaky_env_def sample_result_def)
  show ?thesis using a b c by (intro conjI)
qed

text \<open>
  Claim C2, as amended. When the parser finds coordinates that fail
  \<open>isValidCoordinates\<close>, the route handler does not use them: its answer is that of
  \<open>geocodeAddress\<close> for the address. Every success that the handler produces without
  consulting the cache or the provider carries the coordinates that the parser found,
  they are in range, and the state with its cache is unchanged.
\<close>

theorem shortcut_rejects_out_of_range:
  "(coordinates (parseCoordinatesFromLocation addr) = Some c
      \<and> \<not> isValidCoordinates (lat c) (lng c) \<longrightarrow>
    POST e st (single_request addr) =
      (case geocodeAddress e st addr of
         (st', Inr location) \<Rightarrow> Some (st', SingleOk location)
       | (st', Inl err) \<Rightarrow> Some (st', ErrorResponse 404 ''Geocoding failed'' (message err))))
   \<and> (POST e st (single_request addr) = Some (st', SingleOk location)
        \<and> trace st' = trace st \<longrightarrow>
      st' = st
      \<and> isValidCoordinates (lat (loc_coordinates location)) (lng (loc_coordinates location))
      \<and> coordinates (parseCoordinatesFromLocation addr) = Some (loc_coordinates location))"
proof -
  have one: "POST e st (single_request addr) =
      (case geocodeAddress e st addr of
         (st', Inr location) \<Rightarrow> Some (st', SingleOk location)
       | (st', Inl err) \<Rightarrow> Some (st', ErrorResponse 404 ''Geocoding failed'' (message err)))"
    if "coordinates (parseCoordinatesFromLocation addr) = Some c"
      "\<not> isValidCoordinates (lat c) (lng c)"
  proof -
    have "addr \<noteq> []" using that(1) parse_Nil by auto
    then show ?thesis using that by (simp add: POST_def single_request_def Let_def)
  qed
  have two: "st' = st
      \<and> isValidCoordinates (lat (loc_coordinates location)) (lng (loc_coordinates location))
      \<and> coordinates (parseCoordinatesFromLocation addr) = Some (loc_coordinates location)"
    if p: "POST e st (single_request addr) = Some (st', SingleOk location)"
      and t: "trace st' = trace st"
  proof (cases "addr \<noteq> [] \<and> coordinates (parseCoordinatesFromLocation addr) \<noteq> None
      \<and> isValidCoordinates (lat (the (coordinates (parseCoordinatesFromLocation addr))))
                           (lng (the (coordinates (parseCoordinatesFromLocation addr))))")
    case True
    then show ?thesis using p by (auto simp: POST_def single_request_def Let_def)
  next
    case False
    then have "addr \<noteq> [] \<and> (case geocodeAddress e st addr of
         (st', Inr location) \<Rightarrow> Some (st', SingleOk location)
       | (st', Inl err) \<Rightarrow> Some (st', ErrorResponse 404 ''Geocoding failed'' (message err)))
        = Some (st', SingleOk location)"
      using p by (auto simp: POST_def single_request_def Let_def split: if_splits)
    then have "st' = fst (geocodeAddress e st addr)"
      by (auto split: prod.splits sum.splits)
    then show ?thesis using geocodeAddress_trace_grows [of e st addr] t by simp
  qed
  show ?thesis using one two by blast
qed

lemma new_Set_aux:
  "distinct acc \<Longrightarrow>
   distinct (foldl (\<lambda>s x. if x \<in> set s then s else s @ [x]) acc xs)
   \<and> set (foldl (\<lambda>s x. if x \<in> set s then s else s @ [x]) acc xs) = set acc \<union> set xs"
  by (induction xs arbitrary: acc) auto

lemma new_Set_props: "distinct (new_Set xs) \<and> set (new_Set xs) = set xs"
  using new_Set_aux [of "[]" xs] by (simp add: new_Set_def)

lemma record_outcome_ok:
  assumes "part_ok S maps" "a \<notin> S"
  shows "part_ok (insert a S) (record_outcome maps (a, r))"
proof (cases r)
  case (Inl err)
  then show ?thesis using assms
    by (auto simp: part_ok_def record_outcome_def AList.dom_update AList.distinct_update)
next
  case (Inr location)
  then show ?thesis using assms
    by (auto simp: part_ok_def record_outcome_def AList.dom_update AList.distinct_update)
qed

lemma record_all_ok:
  "part_ok S maps \<Longrightarrow> distinct (map fst outs) \<Longrightarrow> fst ` set outs \<inter> S = {} \<Longrightarrow>
   part_ok (S \<union> fst ` set outs) (foldl record_outcome maps outs)"
proof (induction outs arbitrary: S maps)
  case Nil
  then show ?case by simp
next
  case (Cons ar outs)
  obtain a r where ar: "ar = (a, r)" by (cases ar)
  have a: "a \<notin> S" using Cons.prems(3) ar by auto
  have 1: "part_ok (insert a S) (record_outcome maps (a, r))"
    by (rule record_outcome_ok [OF Cons.prems(1) a])
  have 2: "distinct (map fst outs)" using Cons.prems(2) by simp
  have 3: "fst ` set outs \<inter> insert a S = {}" using Cons.prems(2,3) ar by auto
  have "part_ok (insert a S \<union> fst ` set outs) (foldl record_outcome (record_outcome maps (a, r)) outs)"
    by (rule Cons.IH [OF 1 2 3])
  then show ?case using ar by simp
qed

lemma begin_all_keys: "map fst (snd (begin_all e st chunk)) = chunk"
proof (induction chunk arbitrary: st)
  case Nil
  show ?case by simp
next
  case (Cons a chunk)
  obtain st1 p where b: "geocodeAddress_begin e st a = (st1, p)"
    by (cases "geocodeAddress_begin e st a")
  obtain st2 ps where r: "begin_all e st1 chunk = (st2, ps)"
    by (cases "begin_all e st1 chunk")
  have "map fst ps = chunk" using Cons.IH [of st1] r by simp
  then show ?case using b r by simp
qed

lemma finish_all_keys: "map fst (snd (finish_all e st ps)) = map fst ps"
proof (induction ps arbitrary: st)
  case Nil
  show ?case by simp
next
  case (Cons ao ps)
  obtain a outcome where ao: "ao = (a, outcome)" by (cases ao)
  obtain st1 r where b: "geocodeAddress_finish e st a outcome = (st1, r)"
    by (cases "geocodeAddress_finish e st a outcome")
  obtain st2 rs where f: "finish_all e st1 ps = (st2, rs)"
    by (cases "finish_all e st1 ps")
  have "map fst rs = map fst ps" using Cons.IH [of st1] f by simp
  then show ?case using ao b f by simp
qed

lemma split_pending_keys:
  "fst ` set (settled_of ps) \<union> fst ` set (inflight_of ps) = fst ` set ps
   \<and> (distinct (map fst ps) \<longrightarrow>
        distinct (map fst (settled_of ps)) \<and> distinct (map fst (inflight_of ps))
        \<and> fst ` set (settled_of ps) \<inter> fst ` set (inflight_of ps) = {})"
  by (induction ps rule: settled_of.induct) auto

lemma process_chunk_ok:
  assumes "part_ok S (snd acc)" "distinct chunk" "set chunk \<inter> S = {}"
  shows "part_ok (S \<union> set chunk) (snd (process_chunk e acc chunk))"
proof -
  obtain st maps where acc: "acc = (st, maps)" by (cases acc)
  obtain st1 ps where b: "begin_all e st chunk = (st1, ps)" by (cases "begin_all e st chunk")
  obtain st2 fin where f: "finish_all e st1 (inflight_of ps) = (st2, fin)"
    by (cases "finish_all e st1 (inflight_of ps)")
  have ks: "map fst ps = chunk" using begin_all_keys [of e st chunk] b by simp
  have kf: "map fst fin = map fst (inflight_of ps)"
    using finish_all_keys [of e st1 "inflight_of ps"] f by simp
  have dps: "distinct (map fst ps)" using ks assms(2) by simp
  have "fst ` set ps = set chunk" unfolding ks [symmetric] by simp
  then have sp: "fst ` set (settled_of ps) \<union> fst ` set (inflight_of ps) = set chunk"
    using split_pending_keys [of ps] by simp
  have fin_set: "fst ` set fin = fst ` set (inflight_of ps)"
    using arg_cong [OF kf, of set] by simp
  have d1: "distinct (map fst (settled_of ps))" and d2: "distinct (map fst fin)"
    and d3: "fst ` set (settled_of ps) \<inter> fst ` set fin = {}"
    using split_pending_keys [of ps] dps kf fin_set by simp_all
  have d: "distinct (map fst (settled_of ps @ fin))"
    using d1 d2 d3 by simp
  have u: "fst ` set (settled_of ps @ fin) = set chunk"
    using sp fin_set by (simp add: image_Un)
  have "part_ok (S \<union> fst ` set (settled_of ps @ fin))
          (foldl record_outcome maps (settled_of ps @ fin))"
    by (rule record_all_ok) (use assms acc d u in auto)
  then show ?thesis using acc b f u by (simp add: process_chunk_def)
qed

lemma batch_loop_ok:
  "0 < parallel \<Longrightarrow> distinct xs \<Longrightarrow> part_ok (set (take i xs)) (snd acc) \<Longrightarrow>
   \<exists>st' maps'. batch_loop e parallel xs i acc = Some (st', maps') \<and> part_ok (set xs) maps'"
proof (induction e parallel xs i acc rule: batch_loop.induct)
  case (1 e parallel xs i acc)
  show ?case
  proof (cases "i < length xs")
    case False
    then have "take i xs = xs" by simp
    then show ?thesis using False "1.prems"(3)
      by (cases acc) (simp add: batch_loop.simps [of e parallel xs i])
  next
    case True
    let ?chunk = "take parallel (drop i xs)"
    let ?acc' = "process_chunk e acc ?chunk"
    have p: "parallel \<noteq> 0" using "1.prems"(1) by simp
    have "distinct (take i xs @ drop i xs)" using "1.prems"(2) by simp
    then have dj: "set (drop i xs) \<inter> set (take i xs) = {}"
      unfolding distinct_append by auto
    have dc: "distinct ?chunk" using "1.prems"(2) by simp
    have cj: "set ?chunk \<inter> set (take i xs) = {}"
      using dj set_take_subset [of parallel "drop i xs"] by auto
    have "part_ok (set (take i xs) \<union> set ?chunk) (snd ?acc')"
      by (rule process_chunk_ok [OF "1.prems"(3) dc cj])
    moreover have "set (take i xs) \<union> set ?chunk = set (take (i + parallel) xs)"
      by (simp add: take_add)
    ultimately have ok: "part_ok (set (take (i + parallel) xs)) (snd ?acc')" by simp
    have "\<exists>st' maps'. batch_loop e parallel xs (i + parallel) ?acc' = Some (st', maps')
            \<and> part_ok (set xs) maps'"
      by (rule "1.IH" [OF True p "1.prems"(1,2) ok])
    then show ?thesis using True p by (simp add: batch_loop.simps [of e parallel xs i])
  qed
qed

lemma batch_run_ok:
  assumes "0 < parallel"
  shows "\<exists>st' res errs.
           batch_run e st addresses parallel = Some (st', res, errs)
           \<and> part_ok (set addresses) (res, errs)"
proof -
  have d: "distinct (new_Set addresses)" and s: "set (new_Set addresses) = set addresses"
    using new_Set_props by auto
  have p0: "part_ok (set (take 0 (new_Set addresses))) (snd (st, ([], [])))"
    by (simp add: part_ok_def)
  obtain st' maps'
    where r: "batch_loop e parallel (new_Set addresses) 0 (st, [], []) = Some (st', maps')"
      and ok: "part_ok (set (new_Set addresses)) maps'"
    using batch_loop_ok [OF assms d p0, of e] by blast
  obtain res errs where m: "maps' = (res, errs)" by (cases maps')
  have "batch_run e st addresses parallel = Some (st', res, errs)"
    using r m by (simp add: batch_run_def)
  then show ?thesis using ok m s by auto
qed

text \<open>
  Claim C1, as amended. For every list of addresses and every concurrency limit of at
  least one, \<open>batchGeocodeAddresses\<close> returns. When its loop ends, every distinct input
  address is a key of exactly one of the two local maps \<open>results\<close> and \<open>errors\<close>,
  never of both and never of neither. The value returned is \<open>results\<close> alone.
\<close>

theorem batch_partition:
  assumes "0 < parallel"
  shows "\<exists>st' res errs.
           batch_run e st addresses parallel = Some (st', res, errs)
           \<and> batchGeocodeAddresses e st addresses parallel = Some (st', res)
           \<and> fst ` set res \<union> fst ` set errs = set addresses
           \<and> fst ` set res \<inter> fst ` set errs = {}
           \<and> distinct (map fst res) \<and> distinct (map fst errs)"
proof -
  obtain st' res errs
    where 1: "batch_run e st addresses parallel = Some (st', res, errs)"
      and ok: "part_ok (set addresses) (res, errs)"
    using batch_run_ok [OF assms, of e st addresses] by blast
  have 2: "batchGeocodeAddresses e st addresses parallel = Some (st', res)"
    using 1 by (simp add: batchGeocodeAddresses_def)
  have 3: "fst ` set res \<union> fst ` set errs = set addresses
           \<and> fst ` set res \<inter> fst ` set errs = {}
           \<and> distinct (map fst res) \<and> distinct (map fst errs)"
    using ok by (simp add: part_ok_def)
  show ?thesis using 1 2 3 by blast
qed

lemma valid_filter:
  "filter (\<lambda>addr. trim addr \<noteq> []) addrs = filter (\<lambda>a. \<not> is_blank a) addrs"
  by (simp add: trim_empty_iff)

lemma batch_returns: "batchGeocodeAddresses e st addrs 5 \<noteq> None"
proof -
  obtain st' res errs where "batch_run e st addrs 5 = Some (st', res, errs)"
    using batch_run_ok [of 5 e st addrs] by auto
  then show ?thesis by (simp add: batchGeocodeAddresses_def)
qed

text \<open>
  Claim C3, as amended. The batch route handler \<open>handleBatchGeocoding\<close> rejects the
  whole batch, with status 400 and the state unchanged (no lookup, no request), exactly
  when the list is empty, or has more than 100 addresses, or holds blank addresses
  only. In every other case it answers with a batch result, in which failures are
  counted per address. \<open>batchGeocodeAddresses\<close> itself validates nothing: for the
  empty list it returns the empty map.
\<close>

theorem batch_validation:
  "(is_rejection (handleBatchGeocoding e st addrs) \<longleftrightarrow>
      addrs = [] \<or> 100 < length addrs \<or> list_all is_blank addrs)
   \<and> (is_rejection (handleBatchGeocoding e st addrs) \<longrightarrow>
        (\<exists>msg. handleBatchGeocoding e st addrs = Some (st, ErrorResponse 400 ''Bad request'' msg)))
   \<and> (\<not> is_rejection (handleBatchGeocoding e st addrs) \<longrightarrow>
        (\<exists>st' res failed.
           batchGeocodeAddresses e st (filter (\<lambda>a. \<not> is_blank a) addrs) 5 = Some (st', res)
           \<and> handleBatchGeocoding e st addrs
               = Some (st', BatchOk res (int (length res)) 0 failed)))
   \<and> batchGeocodeAddresses e st [] 5 = Some (st, [])"
proof -
  let ?valid = "filter (\<lambda>a. \<not> is_blank a) addrs"
  have blank_all: "?valid = [] \<longleftrightarrow> list_all is_blank addrs"
    by (simp add: filter_empty_conv list_all_iff)
  obtain st' res where b: "batchGeocodeAddresses e st ?valid 5 = Some (st', res)"
    using batch_returns [of e st ?valid] by auto
  have empty: "batchGeocodeAddresses e st [] 5 = Some (st, [])"
    by (simp add: batchGeocodeAddresses_def batch_run_def new_Set_def
        batch_loop.simps [of e 5 "[]" 0])
  show ?thesis
  proof (cases "addrs = [] \<or> 100 < length addrs \<or> list_all is_blank addrs")
    case True
    then have "is_rejection (handleBatchGeocoding e st addrs)
        \<and> (\<exists>msg. handleBatchGeocoding e st addrs = Some (st, ErrorResponse 400 ''Bad request'' msg))"
      using blank_all by (auto simp: handleBatchGeocoding_def valid_filter is_rejection_def Let_def)
    then show ?thesis using True empty by simp
  next
    case False
    then have h: "handleBatchGeocoding e st addrs
        = Some (st', BatchOk res (int (length res)) 0 (int (length ?valid) - int (length res)))"
      using blank_all b by (simp add: handleBatchGeocoding_def valid_filter Let_def)
    then have "\<not> is_rejection (handleBatchGeocoding e st addrs)"
      by (simp add: is_rejection_def)
    then show ?thesis using False h b empty by simp
  qed
qed

text \<open>
  Claim C3 as it is written names the empty list and the list that is too long as the
  only rejections. The list that holds one blank address is neither, and the handler
  rejects it.
\<close>

theorem batch_validation_counterexample:
  "handleBatchGeocoding flaky_env initial_state ['' ''] =
     Some (initial_state, ErrorResponse 400 ''Bad request'' ''No valid addresses provided'')
   \<and> ['' ''] \<noteq> [] \<and> \<not> 100 < length ['' '']"
  by (simp add: handleBatchGeocoding_def trim_def is_space_def)

theorem batch_validation_witness:
  "is_rejection (handleBatchGeocoding flaky_env initial_state ['' ''])
   \<and> list_all is_blank ['' '']
   \<and> handleBatchGeocoding flaky_env initial_state ['' ''] =
       Some (initial_state, ErrorResponse 400 ''Bad request'' ''No valid addresses provided'')
   \<and> \<not> is_rejection (handleBatchGeocoding flaky_env initial_state [''Paris''])
   \<and> \<not> list_all is_blank [''Paris'']"
proof -
  have a: "list_all is_blank ['' '']" by (simp add: is_blank_def is_space_def)
  have b: "\<not> list_all is_blank [''Paris'']" by (simp add: is_blank_def is_space_def)
  have c: "handleBatchGeocoding flaky_env initial_state ['' ''] =
       Some (initial_state, ErrorResponse 400 ''Bad request'' ''No valid addresses provided'')"
    by (simp add: handleBatchGeocoding_def trim_def is_space_def)
  show ?thesis
    using batch_validation [of flaky_env initial_state "['' '']"]
      batch_validation [of flaky_env initial_state "[''Paris'']"] a b c
    by simp
qed

lemmas batch_eval_defs = batch_run_def batchGeocodeAddresses_def new_Set_def
  process_chunk_def record_outcome_def

lemma batch_run_example:
  "batch_run flaky_env initial_state [''Paris'', ''Lyon'', ''Paris''] 5 =
     Some (\<lparr>geocodeCache = [(''paris'', \<lparr>data = sample_location, timestamp = 0, ttl = 3600000\<rparr>)],
            ticks = 1,
            trace = [CacheGet ''paris'', Fetch ''Paris'', CacheGet ''lyon'', Fetch ''Lyon'']\<rparr>,
           [(''Paris'', sample_location)],
           [(''Lyon'', ''Geocoding API error: 503'')])"
  by (simp add: batch_eval_defs eval_defs flaky_env_def sample_result_def sample_location_def
      batch_loop.simps [of _ _ "[''Paris'', ''Lyon'']"])

theorem batch_partition_witness:
  "(0::nat) < 5
   \<and> batchGeocodeAddresses flaky_env initial_state [''Paris'', ''Lyon'', ''Paris''] 5 =
       Some (\<lparr>geocodeCache =
                [(''paris'', \<lparr>data = sample_location, timestamp = 0, ttl = 3600000\<rparr>)],
              ticks = 1,
              trace = [CacheGet ''paris'', Fetch ''Paris'', CacheGet ''lyon'', Fetch ''Lyon'']\<rparr>,
             [(''Paris'', sample_location)])
   \<and> fst ` set [(''Paris'', sample_location)]
         \<union> fst ` set [(''Lyon'', ''Geocoding API error: 503'')]
       = set [''Paris'', ''Lyon'', ''Paris'']"
proof -
  have p: "(0::nat) < 5" by simp
  obtain st' res errs where
    r: "batch_run flaky_env initial_state [''Paris'', ''Lyon'', ''Paris''] 5 = Some (st', res, errs)"
    and b: "batchGeocodeAddresses flaky_env initial_state [''Paris'', ''Lyon'', ''Paris''] 5
              = Some (st', res)"
    and u: "fst ` set res \<union> fst ` set errs = set [''Paris'', ''Lyon'', ''Paris'']"
    using batch_partition [OF p, of flaky_env initial_state "[''Paris'', ''Lyon'', ''Paris'']"]
    by blast
  from r have "st' = \<lparr>geocodeCache =
                [(''paris'', \<lparr>data = sample_location, timestamp = 0, ttl = 3600000\<rparr>)],
              ticks = 1,
              trace = [CacheGet ''paris'', Fetch ''Paris'', CacheGet ''lyon'', Fetch ''Lyon'']\<rparr>"
    and "res = [(''Paris'', sample_location)]"
    and "errs = [(''Lyon'', ''Geocoding API error: 503'')]"
    unfolding batch_run_example by simp_all
  then show ?thesis using p b u by simp
qed

text \<open>
  Claim C1 as it is written says that the addresses that could not be resolved are
  reported in the returned outcome. The provider answers the request for Lyon with
  status 503: the returned map has the entry of Paris only.
\<close>

theorem batch_drops_failed_counterexample:
  "batchGeocodeAddresses flaky_env initial_state [''Paris'', ''Lyon'', ''Paris''] 5 =
       Some (\<lparr>geocodeCache =
                [(''paris'', \<lparr>data = sample_location, timestamp = 0, ttl = 3600000\<rparr>)],
              ticks = 1,
              trace = [CacheGet ''paris'', Fetch ''Paris'', CacheGet ''lyon'', Fetch ''Lyon'']\<rparr>,
             [(''Paris'', sample_location)])
   \<and> ''Lyon'' \<in> set [''Paris'', ''Lyon'', ''Paris'']
   \<and> ''Lyon'' \<notin> fst ` set [(''Paris'', sample_location)]"
  using batch_run_example by (simp add: batchGeocodeAddresses_def)

theorem shortcut_rejects_out_of_range_witness:
  "coordinates (parseCoordinatesFromLocation ''(91, 181)'') = Some \<lparr>lat = 91, lng = 181\<rparr>
   \<and> \<not> isValidCoordinates 91 181
   \<and> POST flaky_env initial_state (single_request ''(91, 181)'') =
       (case geocodeAddress flaky_env initial_state ''(91, 181)'' of
          (st', Inr location) \<Rightarrow> Some (st', SingleOk location)
        | (st', Inl err) \<Rightarrow> Some (st', ErrorResponse 404 ''Geocoding failed'' (message err)))
   \<and> POST flaky_env initial_state (single_request ''1,2'') =
       Some (initial_state,
             SingleOk \<lparr>loc_address = ''1,2'', formattedAddress = ''1,2'',
                       loc_coordinates = \<lparr>lat = 1, lng = 2\<rparr>,
                       placeId = None, loc_components = None\<rparr>)
   \<and> isValidCoordinates 1 2"
proof -
  have a: "coordinates (parseCoordinatesFromLocation ''(91, 181)'') = Some \<lparr>lat = 91, lng = 181\<rparr>"
    by (simp add: parseCoordinatesFromLocation_def paren_match_here_def match_number_def
        match_unsigned_def expect_char_def is_digit_def is_space_def parseFloat_def
        digits_val_def digit_val_def)
  have b: "\<not> isValidCoordinates (lat \<lparr>lat = 91, lng = 181\<rparr>) (lng \<lparr>lat = 91, lng = 181\<rparr>)"
    by (simp add: isValidCoordinates_def)
  have c: "coordinates (parseCoordinatesFromLocation ''1,2'') = Some \<lparr>lat = 1, lng = 2\<rparr>"
    by (simp add: parseCoordinatesFromLocation_def paren_match_here_def coord_match_def
        match_number_def match_unsigned_def expect_char_def is_digit_def is_space_def
        parseFloat_def digits_val_def digit_val_def)
  have d: "POST flaky_env initial_state (single_request ''1,2'') =
       Some (initial_state,
             SingleOk \<lparr>loc_address = ''1,2'', formattedAddress = ''1,2'',
                       loc_coordinates = \<lparr>lat = 1, lng = 2\<rparr>,
                       placeId = None, loc_components = None\<rparr>)"
    using c by (simp add: POST_def single_request_def isValidCoordinates_def)
  have one: "POST flaky_env initial_state (single_request ''(91, 181)'') =
       (case geocodeAddress flaky_env initial_state ''(91, 181)'' of
          (st', Inr location) \<Rightarrow> Some (st', SingleOk location)
        | (st', Inl err) \<Rightarrow> Some (st', ErrorResponse 404 ''Geocoding failed'' (message err)))"
    using shortcut_rejects_out_of_range
      [of "''(91, 181)''" "\<lparr>lat = 91, lng = 181\<rparr>" flaky_env initial_state] a b
    by blast
  have two: "isValidCoordinates 1 2"
    using shortcut_rejects_out_of_range
      [of "''1,2''" _ flaky_env initial_state initial_state
          "\<lparr>loc_address = ''1,2'', formattedAddress = ''1,2'',
            loc_coordinates = \<lparr>lat = 1, lng = 2\<rparr>,
            placeId = None, loc_components = None\<rparr>"] d
    by simp
  show ?thesis using a b d one two by simp
qed

lemma map_of_filter_None: "map_of c k = None \<Longrightarrow> map_of (filter P c) k = None"
  by (induction c) (auto split: if_splits)

lemma cacheResult_no_blank_key:
  assumes "\<not> is_blank addr" "map_of (geocodeCache st) [] = None"
  shows "map_of (geocodeCache (cacheResult e st addr loc)) [] = None"
proof -
  have "getCacheKey addr \<noteq> []" using assms(1) by (simp add: getCacheKey_empty_iff)
  then show ?thesis
    unfolding cacheResult_cache enforce_filter using assms(2)
    by (intro map_of_filter_None) (simp add: AList.update_conv')
qed

lemma begin_no_blank_key:
  assumes "map_of (geocodeCache st) [] = None"
  shows "map_of (geocodeCache (fst (geocodeAddress_begin e st addr))) [] = None"
proof -
  have "map_of (geocodeCache (fst (getCachedResult e st addr))) [] = None"
    using assms
    by (auto simp: getCachedResult_def Let_def Date_now_def AList.delete_conv'
        split: option.splits)
  then show ?thesis
    by (auto simp: geocodeAddress_begin_def split: prod.splits option.splits)
qed

lemma begin_InFlight_nonblank:
  "geocodeAddress_begin e st addr = (st1, InFlight outcome) \<Longrightarrow> \<not> is_blank addr"
  by (auto simp: geocodeAddress_begin_def trim_empty_iff [symmetric]
      split: prod.splits option.splits if_splits)

lemma finish_no_blank_key:
  assumes "\<not> is_blank addr" "map_of (geocodeCache st) [] = None"
  shows "map_of (geocodeCache (fst (geocodeAddress_finish e st addr outcome))) [] = None"
  using assms cacheResult_no_blank_key [OF assms]
  by (auto simp: geocodeAddress_finish_def Let_def
      split: fetch_outcome.splits option.splits list.splits)

lemma geocodeAddress_no_blank_key:
  assumes "map_of (geocodeCache st) [] = None"
  shows "map_of (geocodeCache (fst (geocodeAddress e st addr))) [] = None"
proof (cases "geocodeAddress_begin e st addr")
  case (Pair st1 p)
  have 1: "map_of (geocodeCache st1) [] = None"
    using begin_no_blank_key [OF assms, of e addr] Pair by simp
  show ?thesis
  proof (cases p)
    case (Settled r)
    then show ?thesis using Pair 1 by (simp add: geocodeAddress_def)
  next
    case (InFlight outcome)
    then have "\<not> is_blank addr" using Pair begin_InFlight_nonblank by blast
    then show ?thesis
      using Pair InFlight finish_no_blank_key [OF _ 1, of addr e outcome]
      by (simp add: geocodeAddress_def)
  qed
qed

lemma cache_ok_getCachedResult:
  assumes "mono (clock e)" "cache_ok e st"
  shows "cache_ok e (fst (getCachedResult e st addr))"
proof -
  have le: "clock e (ticks st) \<le> clock e (Suc (ticks st))"
    using assms(1) by (simp add: mono_def)
  have d: "distinct (map fst (AList.delete k (geocodeCache st)))" for k
    using assms(2) by (simp add: cache_ok_def AList.distinct_delete)
  have l: "length (AList.delete k (geocodeCache st)) \<le> MAX_CACHE_SIZE" for k
    using assms(2) AList.length_delete_le [of k "geocodeCache st"] by (simp add: cache_ok_def)
  have s: "set (AList.delete k (geocodeCache st)) \<subseteq> set (geocodeCache st)" for k
    by (auto simp: AList.delete_eq)
  show ?thesis
    using assms(2) le d l s
    by (fastforce simp: getCachedResult_def Let_def Date_now_def cache_ok_def
        split: option.splits)
qed

lemma cache_ok_trace: "cache_ok e (st\<lparr>trace := t\<rparr>) = cache_ok e st"
  by (simp add: cache_ok_def)

lemma cache_ok_begin:
  assumes "mono (clock e)" "cache_ok e st"
  shows "cache_ok e (fst (geocodeAddress_begin e st addr))"
proof -
  obtain st1 r where g: "getCachedResult e st addr = (st1, r)"
    by (cases "getCachedResult e st addr")
  have "cache_ok e st1" using cache_ok_getCachedResult [OF assms, of addr] g by simp
  then show ?thesis
    by (simp add: geocodeAddress_begin_def g cache_ok_trace split: option.splits)
qed

lemma cache_ok_finish:
  assumes "mono (clock e)" "cache_ok e st"
  shows "cache_ok e (fst (geocodeAddress_finish e st addr outcome))"
  using assms(2) cache_ok_cacheResult [OF assms]
  by (auto simp: geocodeAddress_finish_def Let_def
      split: fetch_outcome.splits option.splits list.splits)

lemma cache_ok_geocodeAddress:
  assumes "mono (clock e)" "cache_ok e st"
  shows "cache_ok e (fst (geocodeAddress e st addr))"
proof (cases "geocodeAddress_begin e st addr")
  case (Pair st1 p)
  have 1: "cache_ok e st1" using cache_ok_begin [OF assms, of addr] Pair by simp
  show ?thesis
    using Pair 1 cache_ok_finish [OF assms(1) 1, of addr]
    by (cases p) (simp_all add: geocodeAddress_def)
qed

lemma cache_ok_initial: "cache_ok e initial_state"
  by (simp add: cache_ok_def initial_state_def)

end
